theory Spec2Isabelle
  imports Complex_Main "HOL-Library.Sublist"
begin

section \<open>JavaScript strings\<close>

text \<open>
  A JavaScript string is a sequence of UTF-16 code units; \<open>length\<close>, \<open>substring\<close>,
  \<open>indexOf\<close> and the regular expressions of the source all count code units.  A string
  is therefore a list of code units, each a natural number.  ASCII literals of the source
  are written through \<open>js\<close>.
\<close>

type_synonym jsstring = "nat list"

definition js :: "string \<Rightarrow> jsstring" where
  "js s = map of_char s"

text \<open>\<open>String.prototype.startsWith\<close>: is \<open>p\<close> a prefix of \<open>s\<close>.\<close>

fun startsWith :: "jsstring \<Rightarrow> jsstring \<Rightarrow> bool" where
  "startsWith s [] = True"
| "startsWith [] (p # ps) = False"
| "startsWith (c # cs) (p # ps) = (c = p \<and> startsWith cs ps)"

text \<open>
  \<open>String.prototype.indexOf\<close>: the index of the first occurrence of \<open>p\<close> in \<open>s\<close>;
  the source's \<open>-1\<close> is \<open>None\<close>.
\<close>

fun indexOf :: "jsstring \<Rightarrow> jsstring \<Rightarrow> nat option" where
  "indexOf [] p = (if p = [] then Some 0 else None)"
| "indexOf (c # cs) p =
     (if startsWith (c # cs) p then Some 0 else map_option Suc (indexOf cs p))"

definition includesStr :: "jsstring \<Rightarrow> jsstring \<Rightarrow> bool" where
  "includesStr s p = (indexOf s p \<noteq> None)"

text \<open>
  \<open>String.prototype.substring\<close>: both indices are clamped to the length and swapped
  when the first is the larger; with one argument the end is the length.
\<close>

definition substring :: "jsstring \<Rightarrow> nat \<Rightarrow> nat \<Rightarrow> jsstring" where
  "substring s a b =
     (let a' = min a (length s); b' = min b (length s);
          lo = min a' b'; hi = max a' b'
      in take (hi - lo) (drop lo s))"

definition substringFrom :: "jsstring \<Rightarrow> nat \<Rightarrow> jsstring" where
  "substringFrom s a = substring s a (length s)"

text \<open>
  Line terminators (what \<open>.\<close> does not match and where \<open>^\<close> and \<open>$\<close> anchor with the
  \<open>m\<close> flag) and white space (what \<open>trim\<close> strips and \<open>\\s\<close> matches: the ECMAScript
  WhiteSpace and LineTerminator code points).
\<close>

definition isLineTerminator :: "nat \<Rightarrow> bool" where
  "isLineTerminator c = (c = 10 \<or> c = 13 \<or> c = 8232 \<or> c = 8233)"

definition isWhiteSpace :: "nat \<Rightarrow> bool" where
  "isWhiteSpace c =
     (c = 9 \<or> c = 11 \<or> c = 12 \<or> c = 32 \<or> c = 160 \<or> c = 5760
      \<or> (8192 \<le> c \<and> c \<le> 8202) \<or> c = 8239 \<or> c = 8287 \<or> c = 12288
      \<or> c = 65279 \<or> isLineTerminator c)"

definition trim :: "jsstring \<Rightarrow> jsstring" where
  "trim s = rev (dropWhile isWhiteSpace (rev (dropWhile isWhiteSpace s)))"

section \<open>Plan parser (appBuildingTools.ts)\<close>

record overview_t =
  vision :: "jsstring option"
  targetUsers :: "jsstring option"
  coreValueProposition :: "jsstring option"

record requirements_t =
  functional :: "jsstring list option"
  nonFunctional :: "jsstring list option"
  userExperience :: "jsstring list option"

record architecture_t =
  frontend :: "jsstring option"
  backend :: "jsstring option"
  infrastructure :: "jsstring option"

record roadmap_t =
  phase1 :: "jsstring option"
  phase2 :: "jsstring option"
  phase3 :: "jsstring option"

record StructuredPlan =
  title :: jsstring
  overview :: overview_t
  requirements :: requirements_t
  architecture :: architecture_t
  roadmap :: roadmap_t
  structure' :: jsstring
  considerations :: jsstring
  nextSteps :: jsstring
  rawContent :: jsstring

text \<open>
  The marker literal of the source file, code unit by code unit: \<open>## \<close>, the four
  code units U+00F0, U+0178, U+201C, U+2039, then \<open> STRUCTURED PROJECT PLAN\<close>.
\<close>

definition PLAN_MARKER :: jsstring where
  "PLAN_MARKER = js ''## '' @ [240, 376, 8220, 8249] @ js '' STRUCTURED PROJECT PLAN''"

definition isStructuredPlan :: "jsstring \<Rightarrow> bool" where
  "isStructuredPlan content = includesStr content PLAN_MARKER"

text \<open>
  \<open>s.match(/# Project Plan: (.+)/)\<close>: the leftmost position where the literal is
  followed by at least one character that is not a line terminator; the capture is the
  longest run of such characters.  The result is capture group 1.
\<close>

fun matchTitle :: "jsstring \<Rightarrow> jsstring option" where
  "matchTitle [] = None"
| "matchTitle (c # cs) =
     (let lit = js ''# Project Plan: '';
          cap = takeWhile (\<lambda>x. \<not> isLineTerminator x) (drop (length lit) (c # cs))
      in if startsWith (c # cs) lit \<and> cap \<noteq> [] then Some cap else matchTitle cs)"

text \<open>\<open>s.match(/\\n## /)\<close> and \<open>s.match(/\\n### /)\<close>: the \<open>index\<close> of the match.\<close>

definition matchNextSection :: "jsstring \<Rightarrow> nat option" where
  "matchNextSection s = indexOf s (10 # js ''## '')"

definition matchNextSubsection :: "jsstring \<Rightarrow> nat option" where
  "matchNextSubsection s = indexOf s (10 # js ''### '')"

definition extractSection :: "jsstring \<Rightarrow> jsstring \<Rightarrow> jsstring" where
  "extractSection content sectionHeader =
     (case indexOf content sectionHeader of
        None \<Rightarrow> []
      | Some sectionStart \<Rightarrow>
          (let sectionEnd =
                 (case matchNextSection
                         (substringFrom content (sectionStart + length sectionHeader)) of
                    Some idx \<Rightarrow> sectionStart + length sectionHeader + idx
                  | None \<Rightarrow> length content)
           in trim (substring content (sectionStart + length sectionHeader) sectionEnd)))"

text \<open>
  \<open>new RegExp(`- \\*\\*${key}\\*\\*:?\\s*(.+)`, 'i')\<close>.  The keys passed are ASCII words,
  so the case-insensitive comparison is equality up to the case of ASCII letters.  After
  the label the matcher backtracks as the engine does: the optional colon is tried
  consumed first, and \<open>\\s*\<close> gives white space back, longest first, until a character
  that is not a line terminator follows.
\<close>

definition asciiUpper :: "nat \<Rightarrow> nat" where
  "asciiUpper c = (if 97 \<le> c \<and> c \<le> 122 then c - 32 else c)"

fun startsWithCI :: "jsstring \<Rightarrow> jsstring \<Rightarrow> bool" where
  "startsWithCI s [] = True"
| "startsWithCI [] (p # ps) = False"
| "startsWithCI (c # cs) (p # ps) = (asciiUpper c = asciiUpper p \<and> startsWithCI cs ps)"

fun spaceThenText :: "nat \<Rightarrow> jsstring \<Rightarrow> jsstring option" where
  "spaceThenText k s =
     (let cap = takeWhile (\<lambda>x. \<not> isLineTerminator x) (drop k s)
      in if cap \<noteq> [] then Some cap
         else (case k of 0 \<Rightarrow> None | Suc j \<Rightarrow> spaceThenText j s))"

definition afterLabel :: "jsstring \<Rightarrow> jsstring option" where
  "afterLabel s =
     (let attempt = (\<lambda>r. spaceThenText (length (takeWhile isWhiteSpace r)) r)
      in case s of
           c # cs \<Rightarrow>
             (if c = 58
              then (case attempt cs of Some g \<Rightarrow> Some g | None \<Rightarrow> attempt s)
              else attempt s)
         | [] \<Rightarrow> attempt s)"

fun matchBullet :: "jsstring \<Rightarrow> jsstring \<Rightarrow> jsstring option" where
  "matchBullet lab [] = None"
| "matchBullet lab (c # cs) =
     (case (if startsWithCI (c # cs) lab then afterLabel (drop (length lab) (c # cs))
            else None) of
        Some g \<Rightarrow> Some g
      | None \<Rightarrow> matchBullet lab cs)"

definition extractBulletPoint :: "jsstring \<Rightarrow> jsstring \<Rightarrow> jsstring option" where
  "extractBulletPoint content key =
     map_option trim (matchBullet (js ''- **'' @ key @ js ''**'') content)"

text \<open>
  \<open>s.match(/^- (.+)$/gm)\<close>: with the \<open>m\<close> flag every match is a whole line (the text
  between two line terminators) that starts with \<open>- \<close> and has at least one more
  character.  \<open>null\<close> (no match) is \<open>None\<close>.
\<close>

fun splitLines :: "jsstring \<Rightarrow> jsstring list" where
  "splitLines [] = [[]]"
| "splitLines (c # cs) =
     (if isLineTerminator c then [] # splitLines cs
      else (case splitLines cs of l # ls \<Rightarrow> (c # l) # ls | [] \<Rightarrow> [[c]]))"

definition matchListItems :: "jsstring \<Rightarrow> jsstring list option" where
  "matchListItems s =
     (let items = filter (\<lambda>l. startsWith l (js ''- '') \<and> length l > 2) (splitLines s)
      in if items = [] then None else Some items)"

definition extractSubsectionItems :: "jsstring \<Rightarrow> jsstring \<Rightarrow> jsstring list option" where
  "extractSubsectionItems content subsection =
     (case indexOf content (js ''### '' @ subsection) of
        None \<Rightarrow> None
      | Some subsectionStart \<Rightarrow>
          (let subsectionEnd =
                 (case matchNextSubsection
                         (substringFrom content (subsectionStart + length subsection)) of
                    Some idx \<Rightarrow> subsectionStart + length subsection + idx
                  | None \<Rightarrow> length content);
               subsectionContent =
                 substring content (subsectionStart + length subsection) subsectionEnd
           in map_option (map (\<lambda>item. trim (substringFrom item 2)))
                (matchListItems subsectionContent)))"

definition extractSubsectionText :: "jsstring \<Rightarrow> jsstring \<Rightarrow> jsstring option" where
  "extractSubsectionText content subsection =
     (case indexOf content (js ''### '' @ subsection) of
        None \<Rightarrow> None
      | Some subsectionStart \<Rightarrow>
          (let subsectionEnd =
                 (case matchNextSubsection
                         (substringFrom content (subsectionStart + length subsection)) of
                    Some idx \<Rightarrow> subsectionStart + length subsection + idx
                  | None \<Rightarrow> length content);
               subsectionContent =
                 trim (substring content (subsectionStart + length subsection) subsectionEnd)
           in if subsectionContent = [] then None else Some subsectionContent))"

definition parseOverviewSection :: "jsstring \<Rightarrow> overview_t" where
  "parseOverviewSection content =
     \<lparr> vision = extractBulletPoint content (js ''Vision''),
       targetUsers = extractBulletPoint content (js ''Target Users''),
       coreValueProposition = extractBulletPoint content (js ''Core Value Proposition'') \<rparr>"

definition parseRequirementsSection :: "jsstring \<Rightarrow> requirements_t" where
  "parseRequirementsSection content =
     \<lparr> functional = extractSubsectionItems content (js ''Functional Requirements''),
       nonFunctional = extractSubsectionItems content (js ''Non-Functional Requirements''),
       userExperience =
         extractSubsectionItems content (js ''User Experience Requirements'') \<rparr>"

definition parseArchitectureSection :: "jsstring \<Rightarrow> architecture_t" where
  "parseArchitectureSection content =
     \<lparr> frontend = extractSubsectionText content (js ''Frontend''),
       backend = extractSubsectionText content (js ''Backend''),
       infrastructure = extractSubsectionText content (js ''Infrastructure'') \<rparr>"

definition parseRoadmapSection :: "jsstring \<Rightarrow> roadmap_t" where
  "parseRoadmapSection content =
     \<lparr> phase1 = extractSubsectionText content (js ''Phase 1''),
       phase2 = extractSubsectionText content (js ''Phase 2''),
       phase3 = extractSubsectionText content (js ''Phase 3'') \<rparr>"

text \<open>
  \<open>parseStructuredPlan\<close>: \<open>null\<close> is \<open>None\<close>.  The body of the \<open>try\<close> block calls
  only string methods on strings, none of which throws, so the \<open>catch\<close> branch has no
  counterpart here.
\<close>

definition parseStructuredPlan :: "jsstring \<Rightarrow> StructuredPlan option" where
  "parseStructuredPlan content =
     (if \<not> isStructuredPlan content then None
      else
        (let planStart = (case indexOf content PLAN_MARKER of Some i \<Rightarrow> i | None \<Rightarrow> 0);
             planContent = substringFrom content planStart;
             title' = (case matchTitle planContent of
                         Some g \<Rightarrow> trim g
                       | None \<Rightarrow> js ''Untitled Project'')
         in Some \<lparr> title = title',
                   overview =
                     parseOverviewSection (extractSection planContent (js ''## Project Overview'')),
                   requirements =
                     parseRequirementsSection (extractSection planContent (js ''## Requirements'')),
                   architecture =
                     parseArchitectureSection
                       (extractSection planContent (js ''## Architecture & Tech Stack'')),
                   roadmap =
                     parseRoadmapSection
                       (extractSection planContent (js ''## Implementation Roadmap'')),
                   structure' = extractSection planContent (js ''## Project Structure''),
                   considerations =
                     extractSection planContent (js ''## Considerations & Risks''),
                   nextSteps = extractSection planContent (js ''## Next Steps''),
                   rawContent = planContent \<rparr>))"

section \<open>Database schema (schema.ts) and the environment\<close>

text \<open>
  A \<open>jsonb\<close> value.  Vectors are lists of reals; a JavaScript number that is not
  \<open>NaN\<close> denotes a real, and the comparison \<open>> 0.7\<close> of doubles agrees with the
  comparison of the reals they denote against \<open>7/10\<close>.  Dates are milliseconds.
\<close>

datatype json =
  JNull | JBool bool | JNum int | JStr jsstring | JArr "json list"
  | JObj "(jsstring \<times> json) list"

type_synonym vector = "real list"

datatype role = User | Assistant | System

record user_row =
  u_id :: jsstring
  u_email :: "jsstring option"
  u_name :: "jsstring option"
  u_settings :: "json option"
  u_createdAt :: nat
  u_updatedAt :: nat

record memory_row =
  me_id :: jsstring
  me_userId :: jsstring
  me_appId :: "jsstring option"
  me_content :: jsstring
  me_embedding :: "vector option"
  me_metadata :: "json option"
  me_timestamp :: "nat option"

record tool_row =
  te_id :: jsstring
  te_userId :: jsstring
  te_appId :: "jsstring option"
  te_toolName :: jsstring
  te_args :: json
  te_result :: json
  te_success :: jsstring
  te_timestamp :: nat

record pm_row =
  pm_id :: jsstring
  pm_userId :: jsstring
  pm_content :: jsstring
  pm_createdAt :: nat
  pm_updatedAt :: nat

record session_row =
  cs_id :: jsstring
  cs_userId :: jsstring
  cs_title :: "jsstring option"
  cs_createdAt :: nat
  cs_updatedAt :: nat
  cs_lastMessageAt :: nat

record message_row =
  cm_id :: jsstring
  cm_chatSessionId :: jsstring
  cm_userId :: jsstring
  cm_role :: role
  cm_content :: jsstring
  cm_messageIndex :: jsstring
  cm_timestamp :: nat
  cm_metadata :: "json option"

text \<open>
  The state a request runs against: the tables, whether a connection is configured
  (\<open>this.db !== null\<close>), and what the outside decides.  \<open>faults\<close> says, for the
  database round trips to come, which ones throw: a lost connection, or a statement the
  database rejects (the foreign keys and the unique e-mail of the schema are not checked
  by the tables here; a violation is one of the throws the schedule stands for).  A
  round trip past the end of the list succeeds.  \<open>clock\<close> and \<open>uuid\<close> give the
  successive readings of the time (\<open>now()\<close>, \<open>new Date()\<close>) and of
  \<open>gen_random_uuid()\<close>.
\<close>

record world =
  enabled :: bool
  faults :: "bool list"
  clock :: "nat \<Rightarrow> nat"
  clockReads :: nat
  uuid :: "nat \<Rightarrow> jsstring"
  uuidReads :: nat
  users :: "user_row list"
  memoryEmbeddings :: "memory_row list"
  toolExecutions :: "tool_row list"
  userPersistentMemory :: "pm_row list"
  chatSessions :: "session_row list"
  chatMessages :: "message_row list"

text \<open>
  What the repository calls but does not define: the embedding API client (\<open>None\<close>
  when no API key is configured; the client returns \<open>None\<close> when the remote call
  fails), the vector extension's cosine distance operator \<open><=>\<close> (\<open>None\<close> for
  \<open>NULL\<close> or \<open>NaN\<close>), \<open>Number.prototype.toFixed(2)\<close> and \<open>JSON.stringify\<close>.
\<close>

record externals =
  openai :: "(jsstring \<Rightarrow> vector option) option"
  cosineDistance :: "vector \<Rightarrow> vector \<Rightarrow> real option"
  toFixed2 :: "real \<Rightarrow> jsstring"
  stringify :: "json \<Rightarrow> jsstring"

datatype error = ConfigurationError | UpstreamError | DatabaseError

definition readClock :: "world \<Rightarrow> nat \<times> world" where
  "readClock w = (clock w (clockReads w), w\<lparr>clockReads := Suc (clockReads w)\<rparr>)"

definition freshUuid :: "world \<Rightarrow> jsstring \<times> world" where
  "freshUuid w = (uuid w (uuidReads w), w\<lparr>uuidReads := Suc (uuidReads w)\<rparr>)"

text \<open>
  One awaited database statement: it throws when the schedule says so, and either way
  the schedule moves on by one round trip.
\<close>

definition nextFault :: "world \<Rightarrow> bool" where
  "nextFault w = (case faults w of [] \<Rightarrow> False | f # fs \<Rightarrow> f)"

definition roundTrip :: "world \<Rightarrow> world" where
  "roundTrip w = w\<lparr>faults := tl (faults w)\<rparr>"

definition dbStatement :: "world \<Rightarrow> (world \<Rightarrow> 'a \<times> world) \<Rightarrow> (error + 'a) \<times> world" where
  "dbStatement w run =
     (if nextFault w then (Inl DatabaseError, roundTrip w)
      else (case run (roundTrip w) of (r, w') \<Rightarrow> (Inr r, w')))"

text \<open>JavaScript truthiness of an optional string: neither absent nor empty.\<close>

definition truthy :: "jsstring option \<Rightarrow> bool" where
  "truthy s = (case s of None \<Rightarrow> False | Some t \<Rightarrow> t \<noteq> [])"

definition joinWith :: "jsstring \<Rightarrow> jsstring list \<Rightarrow> jsstring" where
  "joinWith sep xs = concat (case xs of [] \<Rightarrow> [] | y # ys \<Rightarrow> y # map (\<lambda>z. sep @ z) ys)"

section \<open>EmbeddingService\<close>

definition createEmbedding :: "externals \<Rightarrow> jsstring \<Rightarrow> error + vector" where
  "createEmbedding ext text =
     (case openai ext of
        None \<Rightarrow> Inl ConfigurationError
      | Some client \<Rightarrow>
          (case client text of None \<Rightarrow> Inl UpstreamError | Some v \<Rightarrow> Inr v))"

section \<open>PersonalizationService\<close>

record MemorySearchResult =
  content :: jsstring
  metadata :: "json option"
  similarity :: real
  timestamp :: nat

definition ensureUser ::
  "world \<Rightarrow> jsstring \<Rightarrow> jsstring option \<Rightarrow> jsstring option \<Rightarrow> user_row option \<times> world" where
  "ensureUser w userId email name =
     (if \<not> enabled w then (None, w)
      else
        (case dbStatement w (\<lambda>d. (take 1 (filter (\<lambda>u. u_id u = userId) (users d)), d)) of
           (Inl e, w1) \<Rightarrow> (None, w1)
         | (Inr existingUser, w1) \<Rightarrow>
             (case existingUser of
                u # _ \<Rightarrow>
                  (if truthy email \<or> truthy name then
                     (case readClock w1 of
                        (now, w2) \<Rightarrow>
                          (let upd = (\<lambda>r. r\<lparr> u_email := (if truthy email then email else u_email r),
                                             u_name := (if truthy name then name else u_name r),
                                             u_updatedAt := now \<rparr>)
                           in case dbStatement w2
                                     (\<lambda>d. (map upd (filter (\<lambda>r. u_id r = userId) (users d)),
                                           d\<lparr>users := map (\<lambda>r. if u_id r = userId then upd r else r)
                                                          (users d)\<rparr>)) of
                                (Inl e, w3) \<Rightarrow> (None, w3)
                              | (Inr updated, w3) \<Rightarrow>
                                  ((case updated of [] \<Rightarrow> None | x # _ \<Rightarrow> Some x), w3)))
                   else (Some u, w1))
              | [] \<Rightarrow>
                  (case dbStatement w1
                          (\<lambda>d. case readClock d of
                                  (now, d1) \<Rightarrow>
                                    (let newUser =
                                           \<lparr> u_id = userId, u_email = email, u_name = name,
                                             u_settings =
                                               Some (JObj [(js ''isGoogleUser'',
                                                            JBool (startsWith userId (js ''google_'')))]),
                                             u_createdAt = now, u_updatedAt = now \<rparr>
                                     in (newUser, d1\<lparr>users := users d1 @ [newUser]\<rparr>))) of
                     (Inl e, w2) \<Rightarrow> (None, w2)
                   | (Inr newUser, w2) \<Rightarrow> (Some newUser, w2)))))"

definition insertMemoryEmbedding ::
  "jsstring \<Rightarrow> jsstring option \<Rightarrow> jsstring \<Rightarrow> vector \<Rightarrow> json option \<Rightarrow> world \<Rightarrow> unit \<times> world" where
  "insertMemoryEmbedding userId appId text embedding meta d =
     (case freshUuid d of
        (i, d1) \<Rightarrow>
          (case readClock d1 of
             (now, d2) \<Rightarrow>
               ((), d2\<lparr>memoryEmbeddings := memoryEmbeddings d2 @
                         [\<lparr> me_id = i, me_userId = userId, me_appId = appId, me_content = text,
                            me_embedding = Some embedding, me_metadata = meta,
                            me_timestamp = Some now \<rparr>]\<rparr>)))"

definition storeMemory ::
  "externals \<Rightarrow> world \<Rightarrow> jsstring \<Rightarrow> jsstring \<Rightarrow> jsstring option \<Rightarrow> json option
     \<Rightarrow> (error + unit) \<times> world" where
  "storeMemory ext w userId text appId meta =
     (if \<not> enabled w then (Inr (), w)
      else
        (case createEmbedding ext text of
           Inl e \<Rightarrow> (Inr (), w)
         | Inr embedding \<Rightarrow>
             (case dbStatement w
                     (insertMemoryEmbedding userId (if truthy appId then appId else None)
                        text embedding meta) of
                (Inl e, w1) \<Rightarrow> (Inr (), w1)
              | (Inr u, w1) \<Rightarrow> (Inr (), w1))))"

text \<open>
  The query of \<open>searchMemories\<close>.  \<open>ORDER BY embedding <=> q\<close> is ascending with
  \<open>NULL\<close> and \<open>NaN\<close> distances last; rows at equal distance keep their table order
  here.  The selected \<open>similarity\<close> column is \<open>1 - distance\<close>.
\<close>

definition rowDistance :: "externals \<Rightarrow> vector \<Rightarrow> memory_row \<Rightarrow> real option" where
  "rowDistance ext q r =
     (case me_embedding r of None \<Rightarrow> None | Some e \<Rightarrow> cosineDistance ext e q)"

definition rowSimilarity :: "externals \<Rightarrow> vector \<Rightarrow> memory_row \<Rightarrow> real option" where
  "rowSimilarity ext q r = map_option (\<lambda>d. 1 - d) (rowDistance ext q r)"

definition nearestFirst :: "externals \<Rightarrow> vector \<Rightarrow> memory_row list \<Rightarrow> memory_row list" where
  "nearestFirst ext q rows =
     map snd (sort_key fst
                (List.map_filter (\<lambda>r. map_option (\<lambda>d. (d, r)) (rowDistance ext q r)) rows))
     @ filter (\<lambda>r. rowDistance ext q r = None) rows"

definition memoryScope :: "jsstring \<Rightarrow> jsstring option \<Rightarrow> memory_row \<Rightarrow> bool" where
  "memoryScope userId appId r =
     (me_userId r = userId \<and> (truthy appId \<longrightarrow> me_appId r = appId))"

text \<open>
  The \<open>map\<close> over the rows: \<open>similarity || 0\<close> and \<open>timestamp || new Date()\<close>, the
  latter reading the clock once for each row without a timestamp.
\<close>

fun toSearchResults ::
  "externals \<Rightarrow> vector \<Rightarrow> memory_row list \<Rightarrow> world \<Rightarrow> MemorySearchResult list \<times> world" where
  "toSearchResults ext q [] w = ([], w)"
| "toSearchResults ext q (r # rs) w =
     (case (case me_timestamp r of
              Some t \<Rightarrow> (t, w)
            | None \<Rightarrow> readClock w) of
        (t, w1) \<Rightarrow>
          (case toSearchResults ext q rs w1 of
             (ms, w2) \<Rightarrow>
               (\<lparr> content = me_content r, metadata = me_metadata r,
                   similarity = (case rowSimilarity ext q r of None \<Rightarrow> 0 | Some s \<Rightarrow> s),
                   timestamp = t \<rparr> # ms, w2)))"

definition searchMemories ::
  "externals \<Rightarrow> world \<Rightarrow> jsstring \<Rightarrow> jsstring \<Rightarrow> jsstring option \<Rightarrow> nat
     \<Rightarrow> MemorySearchResult list \<times> world" where
  "searchMemories ext w userId query appId limit =
     (if \<not> enabled w then ([], w)
      else
        (case createEmbedding ext query of
           Inl e \<Rightarrow> ([], w)
         | Inr queryEmbedding \<Rightarrow>
             (case dbStatement w
                     (\<lambda>d. (take limit
                              (nearestFirst ext queryEmbedding
                                 (filter (memoryScope userId appId) (memoryEmbeddings d))), d)) of
                (Inl e, w1) \<Rightarrow> ([], w1)
              | (Inr results, w1) \<Rightarrow>
                  (case toSearchResults ext queryEmbedding results w1 of
                     (ms, w2) \<Rightarrow> (filter (\<lambda>m. similarity m > 7 / 10) ms, w2)))))"

definition insertToolExecution ::
  "jsstring \<Rightarrow> jsstring option \<Rightarrow> jsstring \<Rightarrow> json \<Rightarrow> json \<Rightarrow> bool \<Rightarrow> world \<Rightarrow> unit \<times> world" where
  "insertToolExecution userId appId toolName args result success d =
     (case freshUuid d of
        (i, d1) \<Rightarrow>
          (case readClock d1 of
             (now, d2) \<Rightarrow>
               ((), d2\<lparr>toolExecutions := toolExecutions d2 @
                         [\<lparr> te_id = i, te_userId = userId, te_appId = appId,
                            te_toolName = toolName, te_args = args, te_result = result,
                            te_success = (if success then js ''success'' else js ''error''),
                            te_timestamp = now \<rparr>]\<rparr>)))"

definition executionSummary :: "externals \<Rightarrow> jsstring \<Rightarrow> json \<Rightarrow> bool \<Rightarrow> jsstring" where
  "executionSummary ext toolName args success =
     js ''Used '' @ toolName @ js '' with args: '' @ stringify ext args @ js ''. Result: ''
     @ (if success then js ''success'' else js ''error'')"

definition executionMetadata :: "jsstring \<Rightarrow> bool \<Rightarrow> json" where
  "executionMetadata toolName success =
     JObj [(js ''type'', JStr (js ''tool_execution'')), (js ''toolName'', JStr toolName),
           (js ''success'', JBool success)]"

definition recordToolExecution ::
  "externals \<Rightarrow> world \<Rightarrow> jsstring \<Rightarrow> jsstring \<Rightarrow> json \<Rightarrow> json \<Rightarrow> bool \<Rightarrow> jsstring option
     \<Rightarrow> (error + unit) \<times> world" where
  "recordToolExecution ext w userId toolName args result success appId =
     (if \<not> enabled w then (Inr (), w)
      else
        (case dbStatement w (insertToolExecution userId appId toolName args result success) of
           (Inl e, w1) \<Rightarrow> (Inr (), w1)
         | (Inr u, w1) \<Rightarrow>
             (case storeMemory ext w1 userId (executionSummary ext toolName args success) appId
                     (Some (executionMetadata toolName success)) of
                (Inl e, w2) \<Rightarrow> (Inr (), w2)
              | (Inr u', w2) \<Rightarrow> (Inr (), w2))))"

text \<open>Persistent memory: delete, then insert, as two statements inside one \<open>try\<close>.\<close>

definition deletePersistentMemory :: "jsstring \<Rightarrow> world \<Rightarrow> unit \<times> world" where
  "deletePersistentMemory userId d =
     ((), d\<lparr>userPersistentMemory := filter (\<lambda>r. pm_userId r \<noteq> userId) (userPersistentMemory d)\<rparr>)"

definition insertPersistentMemory :: "jsstring \<Rightarrow> jsstring \<Rightarrow> world \<Rightarrow> unit \<times> world" where
  "insertPersistentMemory userId text d =
     (case freshUuid d of
        (i, d1) \<Rightarrow>
          (case readClock d1 of
             (now, d2) \<Rightarrow>
               ((), d2\<lparr>userPersistentMemory := userPersistentMemory d2 @
                         [\<lparr> pm_id = i, pm_userId = userId, pm_content = text,
                            pm_createdAt = now, pm_updatedAt = now \<rparr>]\<rparr>)))"

definition setPersistentMemory :: "world \<Rightarrow> jsstring \<Rightarrow> jsstring \<Rightarrow> (error + unit) \<times> world" where
  "setPersistentMemory w userId text =
     (if \<not> enabled w then (Inr (), w)
      else
        (case dbStatement w (deletePersistentMemory userId) of
           (Inl e, w1) \<Rightarrow> (Inr (), w1)
         | (Inr u, w1) \<Rightarrow>
             (case dbStatement w1 (insertPersistentMemory userId text) of
                (Inl e, w2) \<Rightarrow> (Inr (), w2)
              | (Inr u', w2) \<Rightarrow> (Inr (), w2))))"

definition getPersistentMemory :: "world \<Rightarrow> jsstring \<Rightarrow> jsstring option \<times> world" where
  "getPersistentMemory w userId =
     (if \<not> enabled w then (None, w)
      else
        (case dbStatement w
                (\<lambda>d. (take 1 (filter (\<lambda>r. pm_userId r = userId) (userPersistentMemory d)), d)) of
           (Inl e, w1) \<Rightarrow> (None, w1)
         | (Inr result, w1) \<Rightarrow>
             ((case result of [] \<Rightarrow> None | r # _ \<Rightarrow> Some (pm_content r)), w1)))"

definition PERSISTENT_HEADING :: jsstring where
  "PERSISTENT_HEADING = js ''## Persistent User Context'' @ [10]"

definition RELEVANT_HEADING :: jsstring where
  "RELEVANT_HEADING =
     js ''## Recent Relevant Context'' @ [10] @ js ''Based on previous interactions:'' @ [10]"

definition contextPart :: "externals \<Rightarrow> MemorySearchResult \<Rightarrow> jsstring" where
  "contextPart ext memory =
     js ''- '' @ content memory @ js '' (similarity: '' @ toFixed2 ext (similarity memory)
     @ js '')''"

definition getPersonalizedContext ::
  "externals \<Rightarrow> world \<Rightarrow> jsstring \<Rightarrow> jsstring \<Rightarrow> jsstring option \<Rightarrow> jsstring \<times> world" where
  "getPersonalizedContext ext w userId query appId =
     (case getPersistentMemory w userId of
        (persistentMemory, w1) \<Rightarrow>
          (let context1 =
                 (if truthy persistentMemory
                  then [] @ PERSISTENT_HEADING @ the persistentMemory @ [10, 10]
                  else [])
           in case searchMemories ext w1 userId query appId 3 of
                (memories, w2) \<Rightarrow>
                  (let context2 =
                         (if length memories > 0
                          then context1 @ RELEVANT_HEADING
                               @ joinWith [10] (map (contextPart ext) memories) @ [10]
                          else context1)
                   in ((if context2 \<noteq> [] then [10] @ context2 @ [10] else []), w2))))"

section \<open>Chat sessions and messages\<close>

definition getChatSession :: "world \<Rightarrow> jsstring \<Rightarrow> jsstring \<Rightarrow> session_row option \<times> world" where
  "getChatSession w userId chatSessionId =
     (if \<not> enabled w then (None, w)
      else
        (case dbStatement w
                (\<lambda>d. (take 1 (filter (\<lambda>s. cs_id s = chatSessionId \<and> cs_userId s = userId)
                                 (chatSessions d)), d)) of
           (Inl e, w1) \<Rightarrow> (None, w1)
         | (Inr result, w1) \<Rightarrow> ((case result of [] \<Rightarrow> None | s # _ \<Rightarrow> Some s), w1)))"

definition updateChatSessionTitle ::
  "world \<Rightarrow> jsstring \<Rightarrow> jsstring \<Rightarrow> jsstring \<Rightarrow> bool \<times> world" where
  "updateChatSessionTitle w userId chatSessionId newTitle =
     (if \<not> enabled w then (False, w)
      else
        (case readClock w of
           (now, w1) \<Rightarrow>
             (case dbStatement w1
                     (\<lambda>d. ((), d\<lparr>chatSessions :=
                                   map (\<lambda>s. if cs_id s = chatSessionId \<and> cs_userId s = userId
                                            then s\<lparr>cs_title := Some newTitle, cs_updatedAt := now\<rparr>
                                            else s)
                                       (chatSessions d)\<rparr>)) of
                (Inl e, w2) \<Rightarrow> (False, w2)
              | (Inr u, w2) \<Rightarrow> (True, w2))))"

text \<open>
  Deleting a session deletes its messages as well: \<open>chat_messages.chat_session_id\<close>
  references the session with \<open>onDelete: 'cascade'\<close>.
\<close>

definition deleteChatSession :: "world \<Rightarrow> jsstring \<Rightarrow> jsstring \<Rightarrow> bool \<times> world" where
  "deleteChatSession w userId chatSessionId =
     (if \<not> enabled w then (False, w)
      else
        (case dbStatement w
                (\<lambda>d. (let gone = (\<lambda>s. cs_id s = chatSessionId \<and> cs_userId s = userId);
                           goneIds = map cs_id (filter gone (chatSessions d))
                       in ((), d\<lparr>chatSessions := filter (\<lambda>s. \<not> gone s) (chatSessions d),
                                 chatMessages :=
                                   filter (\<lambda>m. cm_chatSessionId m \<notin> set goneIds)
                                     (chatMessages d)\<rparr>))) of
           (Inl e, w1) \<Rightarrow> (False, w1)
         | (Inr u, w1) \<Rightarrow> (True, w1)))"

text \<open>
  \<open>saveChatMessage\<close> awaits two statements one after the other: the insert of the
  message (its \<open>timestamp\<close> is the database's \<open>now()\<close>), then the update of the session
  row with two readings of \<open>new Date()\<close>.  The update is scoped by the session id alone.
\<close>

definition insertChatMessage ::
  "jsstring \<Rightarrow> jsstring \<Rightarrow> role \<Rightarrow> jsstring \<Rightarrow> jsstring \<Rightarrow> json option \<Rightarrow> world
     \<Rightarrow> message_row \<times> world" where
  "insertChatMessage userId chatSessionId r text messageIndex meta d =
     (case freshUuid d of
        (i, d1) \<Rightarrow>
          (case readClock d1 of
             (now, d2) \<Rightarrow>
               (let message =
                      \<lparr> cm_id = i, cm_chatSessionId = chatSessionId, cm_userId = userId,
                        cm_role = r, cm_content = text, cm_messageIndex = messageIndex,
                        cm_timestamp = now, cm_metadata = meta \<rparr>
                in (message, d2\<lparr>chatMessages := chatMessages d2 @ [message]\<rparr>))))"

definition bumpChatSession :: "jsstring \<Rightarrow> nat \<Rightarrow> nat \<Rightarrow> world \<Rightarrow> unit \<times> world" where
  "bumpChatSession chatSessionId lastMessageAt updatedAt d =
     ((), d\<lparr>chatSessions :=
              map (\<lambda>s. if cs_id s = chatSessionId
                       then s\<lparr>cs_lastMessageAt := lastMessageAt, cs_updatedAt := updatedAt\<rparr>
                       else s)
                  (chatSessions d)\<rparr>)"

definition saveChatMessage ::
  "world \<Rightarrow> jsstring \<Rightarrow> jsstring \<Rightarrow> role \<Rightarrow> jsstring \<Rightarrow> jsstring \<Rightarrow> json option
     \<Rightarrow> message_row option \<times> world" where
  "saveChatMessage w userId chatSessionId r text messageIndex meta =
     (if \<not> enabled w then (None, w)
      else
        (case dbStatement w (insertChatMessage userId chatSessionId r text messageIndex meta) of
           (Inl e, w1) \<Rightarrow> (None, w1)
         | (Inr message, w1) \<Rightarrow>
             (case readClock w1 of
                (lastMessageAt, w2) \<Rightarrow>
                  (case readClock w2 of
                     (updatedAt, w3) \<Rightarrow>
                       (case dbStatement w3 (bumpChatSession chatSessionId lastMessageAt updatedAt) of
                          (Inl e, w4) \<Rightarrow> (None, w4)
                        | (Inr u, w4) \<Rightarrow> (Some message, w4))))))"

text \<open>
  The states of the database that another request can read while \<open>saveChatMessage\<close>
  runs: the one it starts from and the one after each awaited statement.
\<close>

definition saveChatMessageStates ::
  "world \<Rightarrow> jsstring \<Rightarrow> jsstring \<Rightarrow> role \<Rightarrow> jsstring \<Rightarrow> jsstring \<Rightarrow> json option \<Rightarrow> world list" where
  "saveChatMessageStates w userId chatSessionId r text messageIndex meta =
     (if \<not> enabled w then [w]
      else
        (case dbStatement w (insertChatMessage userId chatSessionId r text messageIndex meta) of
           (Inl e, w1) \<Rightarrow> [w, w1]
         | (Inr message, w1) \<Rightarrow>
             [w, w1, snd (saveChatMessage w userId chatSessionId r text messageIndex meta)]))"

text \<open>
  \<open>ORDER BY timestamp\<close> ascending, \<open>LIMIT 3\<close>; messages with equal timestamps keep
  their table order here.
\<close>

definition generateChatTitle :: "world \<Rightarrow> jsstring \<Rightarrow> jsstring \<Rightarrow> jsstring option \<times> world" where
  "generateChatTitle w userId chatSessionId =
     (if \<not> enabled w then (None, w)
      else
        (case dbStatement w
                (\<lambda>d. (take 3 (sort_key cm_timestamp
                                 (filter (\<lambda>m. cm_chatSessionId m = chatSessionId
                                               \<and> cm_userId m = userId) (chatMessages d))), d)) of
           (Inl e, w1) \<Rightarrow> (None, w1)
         | (Inr messages, w1) \<Rightarrow>
             (if length messages = 0 then (None, w1)
              else
                (case find (\<lambda>m. cm_role m = User) messages of
                   None \<Rightarrow> (None, w1)
                 | Some firstUserMessage \<Rightarrow>
                     (let title0 = substring (trim (cm_content firstUserMessage)) 0 50;
                          title1 = (if length (cm_content firstUserMessage) > 50
                                    then title0 @ js ''...'' else title0)
                      in case updateChatSessionTitle w1 userId chatSessionId title1 of
                           (ok, w2) \<Rightarrow> (Some title1, w2))))))"

section \<open>Request handlers\<close>

text \<open>\<open>api.memory.persistent.ts\<close>, \<open>action\<close>.\<close>

datatype memory_action = ActGet | ActSet | ActAppend | ActOther

record memory_request =
  rq_userId :: jsstring
  rq_action :: memory_action
  rq_content :: "jsstring option"
  rq_email :: "jsstring option"
  rq_name :: "jsstring option"

datatype memory_response =
  MemoryError nat string | MemoryContent "jsstring option" | MemorySuccess

definition persistentMemoryAction :: "world \<Rightarrow> memory_request \<Rightarrow> memory_response \<times> world" where
  "persistentMemoryAction w rq =
     (if rq_userId rq = [] then (MemoryError 400 ''User ID is required'', w)
      else if \<not> enabled w then (MemoryError 503 ''Personalization service is not available'', w)
      else
        (case ensureUser w (rq_userId rq) (rq_email rq) (rq_name rq) of
           (u, w1) \<Rightarrow>
             (case rq_action rq of
                ActGet \<Rightarrow>
                  (case getPersistentMemory w1 (rq_userId rq) of
                     (persistentMemory, w2) \<Rightarrow> (MemoryContent persistentMemory, w2))
              | ActSet \<Rightarrow>
                  (case rq_content rq of
                     None \<Rightarrow> (MemoryError 400 ''Content is required for set action'', w1)
                   | Some text \<Rightarrow>
                       (case setPersistentMemory w1 (rq_userId rq) text of
                          (Inl e, w2) \<Rightarrow> (MemoryError 500 ''Internal server error'', w2)
                        | (Inr x, w2) \<Rightarrow> (MemorySuccess, w2)))
              | ActAppend \<Rightarrow>
                  (case rq_content rq of
                     None \<Rightarrow> (MemoryError 400 ''Content is required for append action'', w1)
                   | Some text \<Rightarrow>
                       (case getPersistentMemory w1 (rq_userId rq) of
                          (existingMemory, w2) \<Rightarrow>
                            (let updatedMemory =
                                   (if truthy existingMemory
                                    then the existingMemory @ [10, 10] @ text
                                    else text)
                             in case setPersistentMemory w2 (rq_userId rq) updatedMemory of
                                  (Inl e, w3) \<Rightarrow> (MemoryError 500 ''Internal server error'', w3)
                                | (Inr x, w3) \<Rightarrow> (MemorySuccess, w3))))
              | ActOther \<Rightarrow>
                  (MemoryError 400 ''Invalid action. Use get, set, or append'', w1))))"

text \<open>\<open>api.chats.$id.messages.ts\<close>, \<open>action\<close> (POST a message).\<close>

record message_request =
  mq_userId :: "jsstring option"
  mq_role :: "role option"
  mq_content :: "jsstring option"
  mq_messageIndex :: "jsstring option"
  mq_metadata :: "json option"

datatype message_response = MessageError nat string | MessageSaved message_row

definition chatMessagesAction ::
  "world \<Rightarrow> jsstring option \<Rightarrow> message_request \<Rightarrow> message_response \<times> world" where
  "chatMessagesAction w chatSessionId body =
     (if \<not> truthy chatSessionId then (MessageError 400 ''Chat ID required'', w)
      else if \<not> enabled w then (MessageError 503 ''Database not available'', w)
      else if \<not> truthy (mq_userId body) then (MessageError 401 ''User not authenticated'', w)
      else if mq_role body = None \<or> \<not> truthy (mq_content body)
              \<or> \<not> truthy (mq_messageIndex body)
        then (MessageError 400 ''Missing required fields'', w)
      else
        (case getChatSession w (the (mq_userId body)) (the chatSessionId) of
           (None, w1) \<Rightarrow> (MessageError 404 ''Chat not found'', w1)
         | (Some chatSession, w1) \<Rightarrow>
             (case saveChatMessage w1 (the (mq_userId body)) (the chatSessionId)
                     (the (mq_role body)) (the (mq_content body)) (the (mq_messageIndex body))
                     (mq_metadata body) of
                (None, w2) \<Rightarrow> (MessageError 500 ''Failed to save message'', w2)
              | (Some message, w2) \<Rightarrow>
                  (if mq_role body = Some User \<and> \<not> truthy (cs_title chatSession)
                   then (case generateChatTitle w2 (the (mq_userId body)) (the chatSessionId) of
                           (t, w3) \<Rightarrow> (MessageSaved message, w3))
                   else (MessageSaved message, w2)))))"

section \<open>Example states\<close>

definition demoUser :: "jsstring \<Rightarrow> user_row" where
  "demoUser userId =
     \<lparr> u_id = userId, u_email = None, u_name = None, u_settings = None, u_createdAt = 1,
       u_updatedAt = 1 \<rparr>"

text \<open>
  A store with a connection, no failing round trip, three users and otherwise empty
  tables, and stand-ins for the external functions: an embedding client that maps every text to the unit vector
  \<open>[1, 0]\<close>, the cosine distance of unit vectors, and a two-decimal rendering of the
  numbers between 0 and 10.
\<close>

definition demoWorld :: world where
  "demoWorld =
     \<lparr> enabled = True, faults = [], clock = (\<lambda>n. 1000 + n), clockReads = 0,
       uuid = (\<lambda>n. [105, 100, 48 + n]), uuidReads = 0,
       users = [demoUser (js ''u1''), demoUser (js ''alice''), demoUser (js ''bob'')],
       memoryEmbeddings = [],
       toolExecutions = [], userPersistentMemory = [], chatSessions = [],
       chatMessages = [] \<rparr>"

definition demoExternals :: externals where
  "demoExternals =
     \<lparr> openai = Some (\<lambda>t. Some [1, 0]),
       cosineDistance = (\<lambda>a b. Some (1 - sum_list (map2 (\<lambda>x y. x * y) a b))),
       toFixed2 = (\<lambda>x. let n = nat \<lfloor>x * 100 + 1 / 2\<rfloor>
                        in [48 + n div 100, 46, 48 + n div 10 mod 10, 48 + n mod 10]),
       stringify = (\<lambda>j. js ''{}'') \<rparr>"

definition demoMemory :: "jsstring \<Rightarrow> jsstring \<Rightarrow> vector \<Rightarrow> memory_row" where
  "demoMemory userId text v =
     \<lparr> me_id = js ''m'', me_userId = userId, me_appId = None, me_content = text,
       me_embedding = Some v, me_metadata = None, me_timestamp = Some 5 \<rparr>"

definition demoSession :: "jsstring \<Rightarrow> jsstring \<Rightarrow> jsstring option \<Rightarrow> session_row" where
  "demoSession sessionId userId t =
     \<lparr> cs_id = sessionId, cs_userId = userId, cs_title = t, cs_createdAt = 1,
       cs_updatedAt = 1, cs_lastMessageAt = 1 \<rparr>"

definition demoPersistent :: "jsstring \<Rightarrow> jsstring \<Rightarrow> pm_row" where
  "demoPersistent userId text =
     \<lparr> pm_id = js ''p'', pm_userId = userId, pm_content = text, pm_createdAt = 1,
       pm_updatedAt = 1 \<rparr>"

definition demoMessage :: "jsstring \<Rightarrow> jsstring \<Rightarrow> role \<Rightarrow> jsstring \<Rightarrow> nat \<Rightarrow> message_row" where
  "demoMessage sessionId userId r text t =
     \<lparr> cm_id = js ''c'', cm_chatSessionId = sessionId, cm_userId = userId, cm_role = r,
       cm_content = text, cm_messageIndex = js ''0'', cm_timestamp = t, cm_metadata = None \<rparr>"

abbreviation demoChat :: world where
  "demoChat \<equiv> demoWorld\<lparr>chatSessions := [demoSession (js ''s1'') (js ''alice'') None]\<rparr>"

abbreviation demoSaved :: message_row where
  "demoSaved \<equiv>
     \<lparr> cm_id = [105, 100, 48], cm_chatSessionId = js ''s1'', cm_userId = js ''alice'',
       cm_role = User, cm_content = js ''hi'', cm_messageIndex = js ''1'',
       cm_timestamp = 1000, cm_metadata = None \<rparr>"

abbreviation demoTitled :: "jsstring \<Rightarrow> world" where
  "demoTitled c \<equiv>
     demoWorld\<lparr>chatSessions := [demoSession (js ''s1'') (js ''alice'') None],
               chatMessages := [demoMessage (js ''s1'') (js ''alice'') User c 7]\<rparr>"

abbreviation demoKept :: world where
  "demoKept \<equiv>
     demoWorld\<lparr>chatSessions := [demoSession (js ''s1'') (js ''alice'') (Some (js ''Kept''))]\<rparr>"

abbreviation demoPost :: message_request where
  "demoPost \<equiv>
     \<lparr> mq_userId = Some (js ''alice''), mq_role = Some User, mq_content = Some (js ''hi''),
       mq_messageIndex = Some (js ''1''), mq_metadata = None \<rparr>"

section \<open>Properties of the string operations\<close>

lemma startsWith_prefix: "startsWith s p \<longleftrightarrow> prefix p s"
  by (induction s p rule: startsWith.induct) auto

lemma indexOf_None_iff: "indexOf s p = None \<longleftrightarrow> \<not> sublist p s"
proof (induction s)
  case Nil
  then show ?case by simp
next
  case (Cons c cs)
  then show ?case
    by (simp add: startsWith_prefix sublist_Cons_right)
qed

text \<open>\<open>indexOf\<close> returns the first position at which the pattern starts.\<close>

lemma indexOf_Some_iff:
  "indexOf s p = Some i \<longleftrightarrow>
     i \<le> length s \<and> prefix p (drop i s) \<and> (\<forall>j<i. \<not> prefix p (drop j s))"
proof (induction s arbitrary: i)
  case Nil
  then show ?case by auto
next
  case (Cons c cs)
  show ?case
  proof (cases "startsWith (c # cs) p")
    case True
    then show ?thesis
      by (auto simp: startsWith_prefix)
  next
    case False
    have "indexOf (c # cs) p = Some i \<longleftrightarrow> (\<exists>k. i = Suc k \<and> indexOf cs p = Some k)"
      using False by auto
    also have "\<dots> \<longleftrightarrow> (\<exists>k. i = Suc k \<and> k \<le> length cs \<and> prefix p (drop k cs)
                         \<and> (\<forall>j<k. \<not> prefix p (drop j cs)))"
      using Cons.IH by simp
    also have "\<dots> \<longleftrightarrow> i \<le> length (c # cs) \<and> prefix p (drop i (c # cs))
                       \<and> (\<forall>j<i. \<not> prefix p (drop j (c # cs)))"
    proof (cases i)
      case 0
      then show ?thesis using False by (simp add: startsWith_prefix)
    next
      case (Suc k)
      have "(\<forall>j<Suc k. \<not> prefix p (drop j (c # cs))) \<longleftrightarrow> (\<forall>j<k. \<not> prefix p (drop j cs))"
        using False by (auto simp: startsWith_prefix less_Suc_eq_0_disj)
      then show ?thesis using Suc by simp
    qed
    finally show ?thesis .
  qed
qed

lemma substringFrom_drop: "substringFrom s a = drop a s"
  by (simp add: substringFrom_def substring_def Let_def min_def max_def)

lemma substring_take_drop: "a \<le> b \<Longrightarrow> substring s a b = take (b - a) (drop a s)"
  by (auto simp: substring_def Let_def min_def max_def)

lemma sublist_drop_imp: "sublist p (drop n s) \<Longrightarrow> sublist p s"
  by (metis sublist_order.order_trans suffix_drop suffix_imp_sublist)

lemma matchTitle_None: "\<not> sublist (js ''# Project Plan: '') s \<Longrightarrow> matchTitle s = None"
proof (induction s)
  case Nil
  then show ?case by simp
next
  case (Cons c cs)
  then have a: "\<not> startsWith (c # cs) (js ''# Project Plan: '')"
    and b: "\<not> sublist (js ''# Project Plan: '') cs"
    by (auto simp: startsWith_prefix sublist_Cons_right)
  show ?case using a b Cons.IH by (simp add: Let_def)
qed

section \<open>Plan detection and the default title\<close>

text \<open>
  Claim C8.  \<open>isStructuredPlan\<close> holds exactly of the texts that contain the marker as a
  substring; \<open>parseStructuredPlan\<close> returns \<open>null\<close> on a text without the marker; and
  on a text with the marker in which \<open># Project Plan:\<close> nowhere occurs it returns a plan
  whose title is \<open>Untitled Project\<close>.
\<close>

theorem plan_marker_detection:
  "(isStructuredPlan text \<longleftrightarrow> sublist PLAN_MARKER text)
   \<and> (\<not> sublist PLAN_MARKER text \<longrightarrow> parseStructuredPlan text = None)
   \<and> (sublist PLAN_MARKER text \<and> \<not> sublist (js ''# Project Plan:'') text \<longrightarrow>
        (\<exists>p. parseStructuredPlan text = Some p \<and> title p = js ''Untitled Project''))"
proof -
  have iff: "isStructuredPlan text \<longleftrightarrow> sublist PLAN_MARKER text"
    by (simp add: isStructuredPlan_def includesStr_def indexOf_None_iff)
  have none: "\<not> sublist PLAN_MARKER text \<Longrightarrow> parseStructuredPlan text = None"
    using iff by (simp add: parseStructuredPlan_def)
  have untitled: "\<exists>p. parseStructuredPlan text = Some p \<and> title p = js ''Untitled Project''"
    if m: "sublist PLAN_MARKER text" and t: "\<not> sublist (js ''# Project Plan:'') text"
  proof -
    let ?plan = "substringFrom text (case indexOf text PLAN_MARKER of Some i \<Rightarrow> i | None \<Rightarrow> 0)"
    have "js ''# Project Plan: '' = js ''# Project Plan:'' @ js '' ''"
      by (simp add: js_def)
    then have "sublist (js ''# Project Plan:'') (js ''# Project Plan: '')"
      by (metis sublist_append_rightI)
    then have "\<not> sublist (js ''# Project Plan: '') text"
      using t sublist_order.order_trans by blast
    then have "\<not> sublist (js ''# Project Plan: '') ?plan"
      using sublist_drop_imp by (auto simp: substringFrom_drop)
    then have "matchTitle ?plan = None"
      by (rule matchTitle_None)
    then show ?thesis
      using m iff by (simp add: parseStructuredPlan_def Let_def)
  qed
  show ?thesis using iff none untitled by blast
qed

theorem plan_marker_detection_witness:
  "sublist PLAN_MARKER (PLAN_MARKER @ [10] @ js ''## Requirements'')
   \<and> \<not> sublist (js ''# Project Plan:'') (PLAN_MARKER @ [10] @ js ''## Requirements'')
   \<and> isStructuredPlan (PLAN_MARKER @ [10] @ js ''## Requirements'')
   \<and> (\<exists>p. parseStructuredPlan (PLAN_MARKER @ [10] @ js ''## Requirements'') = Some p
          \<and> title p = js ''Untitled Project'')
   \<and> \<not> sublist PLAN_MARKER (js ''no plan here'')
   \<and> parseStructuredPlan (js ''no plan here'') = None"
proof -
  have a: "sublist PLAN_MARKER (PLAN_MARKER @ [10] @ js ''## Requirements'')"
    by simp
  have "indexOf (PLAN_MARKER @ [10] @ js ''## Requirements'') (js ''# Project Plan:'') = None"
    by (simp add: PLAN_MARKER_def js_def)
  then have b: "\<not> sublist (js ''# Project Plan:'') (PLAN_MARKER @ [10] @ js ''## Requirements'')"
    by (simp add: indexOf_None_iff)
  have "indexOf (js ''no plan here'') PLAN_MARKER = None"
    by (simp add: PLAN_MARKER_def js_def)
  then have c: "\<not> sublist PLAN_MARKER (js ''no plan here'')"
    by (simp add: indexOf_None_iff)
  show ?thesis
    using a b c plan_marker_detection [of "PLAN_MARKER @ [10] @ js ''## Requirements''"]
      plan_marker_detection [of "js ''no plan here''"]
    by blast
qed

section \<open>Properties of the environment\<close>

lemma dbStatement_ok:
  "\<not> nextFault w \<Longrightarrow>
   dbStatement w run = (Inr (fst (run (roundTrip w))), snd (run (roundTrip w)))"
  by (simp add: dbStatement_def split: prod.splits)

lemma dbStatement_fault:
  "nextFault w \<Longrightarrow> dbStatement w run = (Inl DatabaseError, roundTrip w)"
  by (simp add: dbStatement_def)

lemma roundTrip_simps [simp]:
  "enabled (roundTrip w) = enabled w"
  "faults (roundTrip w) = tl (faults w)"
  "clock (roundTrip w) = clock w"
  "clockReads (roundTrip w) = clockReads w"
  "uuid (roundTrip w) = uuid w"
  "uuidReads (roundTrip w) = uuidReads w"
  "users (roundTrip w) = users w"
  "memoryEmbeddings (roundTrip w) = memoryEmbeddings w"
  "toolExecutions (roundTrip w) = toolExecutions w"
  "userPersistentMemory (roundTrip w) = userPersistentMemory w"
  "chatSessions (roundTrip w) = chatSessions w"
  "chatMessages (roundTrip w) = chatMessages w"
  by (simp_all add: roundTrip_def)

lemma demo_createEmbedding: "createEmbedding demoExternals text = Inr [1, 0]"
  by (simp add: createEmbedding_def demoExternals_def)

lemma demo_rowDistance: "rowDistance demoExternals [1, 0] (demoMemory u t [a, b]) = Some (1 - a)"
  by (simp add: rowDistance_def demoExternals_def demoMemory_def)

lemma demo_nextFault: "\<not> nextFault demoWorld"
  by (simp add: nextFault_def demoWorld_def)

section \<open>Memory search\<close>

text \<open>
  Claim C2.  Whatever the user, the query, the application filter and the limit, and
  whatever the store holds or the environment does, every result that \<open>searchMemories\<close>
  returns has a similarity strictly above 0.7.
\<close>

theorem searchMemories_above_threshold:
  "\<forall>m \<in> set (fst (searchMemories ext w userId query appId limit)). similarity m > 7 / 10"
  by (auto simp: searchMemories_def split: sum.splits prod.splits)

theorem searchMemories_above_threshold_witness:
  "fst (searchMemories demoExternals
          (demoWorld\<lparr>memoryEmbeddings :=
             [demoMemory (js ''u1'') (js ''I prefer tabs'') [3 / 5, 4 / 5],
              demoMemory (js ''u1'') (js ''I use TypeScript'') [9 / 10, 0]]\<rparr>)
          (js ''u1'') (js ''what language do I use'') None 5)
     = [\<lparr> content = js ''I use TypeScript'', metadata = None, similarity = 9 / 10,
          timestamp = 5 \<rparr>]
   \<and> similarity (hd (fst (searchMemories demoExternals
          (demoWorld\<lparr>memoryEmbeddings :=
             [demoMemory (js ''u1'') (js ''I prefer tabs'') [3 / 5, 4 / 5],
              demoMemory (js ''u1'') (js ''I use TypeScript'') [9 / 10, 0]]\<rparr>)
          (js ''u1'') (js ''what language do I use'') None 5))) > 7 / 10"
proof -
  have near: "nearestFirst demoExternals [1, 0]
                [demoMemory (js ''u1'') (js ''I prefer tabs'') [3 / 5, 4 / 5],
                 demoMemory (js ''u1'') (js ''I use TypeScript'') [9 / 10, 0]]
              = [demoMemory (js ''u1'') (js ''I use TypeScript'') [9 / 10, 0],
                 demoMemory (js ''u1'') (js ''I prefer tabs'') [3 / 5, 4 / 5]]"
    by (simp add: nearestFirst_def demo_rowDistance List.map_filter_simps)
  have "fst (searchMemories demoExternals
          (demoWorld\<lparr>memoryEmbeddings :=
             [demoMemory (js ''u1'') (js ''I prefer tabs'') [3 / 5, 4 / 5],
              demoMemory (js ''u1'') (js ''I use TypeScript'') [9 / 10, 0]]\<rparr>)
          (js ''u1'') (js ''what language do I use'') None 5)
     = [\<lparr> content = js ''I use TypeScript'', metadata = None, similarity = 9 / 10,
          timestamp = 5 \<rparr>]"
    by (simp add: searchMemories_def demo_createEmbedding near dbStatement_def nextFault_def
        roundTrip_def demoWorld_def memoryScope_def truthy_def rowSimilarity_def
        demo_rowDistance)
       (simp add: demoMemory_def)
  then show ?thesis
    using searchMemories_above_threshold [of demoExternals
          "demoWorld\<lparr>memoryEmbeddings :=
             [demoMemory (js ''u1'') (js ''I prefer tabs'') [3 / 5, 4 / 5],
              demoMemory (js ''u1'') (js ''I use TypeScript'') [9 / 10, 0]]\<rparr>"
          "js ''u1''" "js ''what language do I use''" None 5]
    by (metis hd_in_set list.distinct(1))
qed

section \<open>Ownership of chat sessions\<close>

text \<open>
  Claim C4.  When every chat session row with the given id belongs to some other user
  (in particular when the row exists and is owned by somebody else), \<open>getChatSession\<close>
  returns \<open>null\<close>.
\<close>

theorem getChatSession_ownership:
  "\<forall>s \<in> set (chatSessions w). cs_id s = chatSessionId \<longrightarrow> cs_userId s \<noteq> userId \<Longrightarrow>
   fst (getChatSession w userId chatSessionId) = None"
proof -
  assume a: "\<forall>s \<in> set (chatSessions w). cs_id s = chatSessionId \<longrightarrow> cs_userId s \<noteq> userId"
  have "filter (\<lambda>s. cs_id s = chatSessionId \<and> cs_userId s = userId) (chatSessions w) = []"
    using a by (auto simp: filter_empty_conv)
  then show ?thesis
    by (simp add: getChatSession_def dbStatement_def split: prod.splits)
qed

theorem getChatSession_ownership_witness:
  "demoSession (js ''s1'') (js ''alice'') None
     \<in> set (chatSessions demoChat)
   \<and> fst (getChatSession demoChat
            (js ''bob'') (js ''s1'')) = None
   \<and> fst (getChatSession demoChat
            (js ''alice'') (js ''s1'')) = Some (demoSession (js ''s1'') (js ''alice'') None)"
proof -
  have own: "fst (getChatSession
                   demoChat
                   (js ''alice'') (js ''s1'')) = Some (demoSession (js ''s1'') (js ''alice'') None)"
    by (simp add: getChatSession_def dbStatement_def nextFault_def demoWorld_def demoSession_def)
  have "\<forall>s \<in> set (chatSessions
                     demoChat).
          cs_id s = js ''s1'' \<longrightarrow> cs_userId s \<noteq> js ''bob''"
    by (simp add: demoSession_def js_def)
  then show ?thesis
    using own getChatSession_ownership
      [of "demoChat"
          "js ''s1''" "js ''bob''"]
    by simp
qed

section \<open>Renaming and deleting chat sessions\<close>

lemma nextFault_readClock [simp]: "nextFault (snd (readClock w)) = nextFault w"
  by (simp add: nextFault_def readClock_def)

text \<open>
  Claim C10.  With a connection and a statement that does not throw,
  \<open>updateChatSessionTitle\<close> and \<open>deleteChatSession\<close> return \<open>true\<close> whether or not a
  session with the given id owned by the given user exists; when none exists the tables
  are left as they were, and the caller is still told \<open>true\<close>.
\<close>

theorem update_delete_report_success:
  "enabled w \<Longrightarrow> \<not> nextFault w \<Longrightarrow>
   fst (updateChatSessionTitle w userId chatSessionId newTitle) = True
   \<and> fst (deleteChatSession w userId chatSessionId) = True
   \<and> ((\<forall>s \<in> set (chatSessions w). \<not> (cs_id s = chatSessionId \<and> cs_userId s = userId)) \<longrightarrow>
        chatSessions (snd (updateChatSessionTitle w userId chatSessionId newTitle)) = chatSessions w
        \<and> chatSessions (snd (deleteChatSession w userId chatSessionId)) = chatSessions w
        \<and> chatMessages (snd (deleteChatSession w userId chatSessionId)) = chatMessages w)"
proof -
  assume en: "enabled w" and nf: "\<not> nextFault w"
  have nf': "\<not> nextFault (w\<lparr>clockReads := Suc (clockReads w)\<rparr>)"
    using nf by (simp add: nextFault_def)
  have u: "fst (updateChatSessionTitle w userId chatSessionId newTitle) = True"
    using en nf' by (simp add: updateChatSessionTitle_def readClock_def dbStatement_ok)
  have d: "fst (deleteChatSession w userId chatSessionId) = True"
    using en nf by (simp add: deleteChatSession_def dbStatement_ok)
  have frame: "chatSessions (snd (updateChatSessionTitle w userId chatSessionId newTitle)) = chatSessions w
        \<and> chatSessions (snd (deleteChatSession w userId chatSessionId)) = chatSessions w
        \<and> chatMessages (snd (deleteChatSession w userId chatSessionId)) = chatMessages w"
    if none: "\<forall>s \<in> set (chatSessions w). \<not> (cs_id s = chatSessionId \<and> cs_userId s = userId)"
  proof -
    have m: "map (\<lambda>s. if cs_id s = chatSessionId \<and> cs_userId s = userId
                      then s\<lparr>cs_title := Some newTitle, cs_updatedAt := t\<rparr> else s) (chatSessions w)
             = chatSessions w" for t
      using none by (intro map_idI) auto
    have g: "filter (\<lambda>s. cs_id s = chatSessionId \<longrightarrow> cs_userId s \<noteq> userId) (chatSessions w) = chatSessions w"
      using none by (auto simp: filter_id_conv)
    have h: "{x \<in> set (chatSessions w). cs_id x = chatSessionId \<and> cs_userId x = userId} = {}"
      using none by auto
    show ?thesis
      using en nf nf'
      by (simp add: updateChatSessionTitle_def deleteChatSession_def readClock_def dbStatement_ok
          Let_def m g h)
  qed
  show ?thesis using u d frame by blast
qed

theorem update_delete_report_success_witness:
  "enabled demoWorld \<and> \<not> nextFault demoWorld
   \<and> fst (updateChatSessionTitle demoChat (js ''bob'') (js ''s1'') (js ''mine'')) = True
   \<and> fst (deleteChatSession demoChat (js ''bob'') (js ''s1'')) = True
   \<and> chatSessions (snd (deleteChatSession demoChat (js ''bob'') (js ''s1''))) = [demoSession (js ''s1'') (js ''alice'') None]"
proof -
  let ?w = "demoChat"
  have a: "enabled ?w" "\<not> nextFault ?w" "enabled demoWorld" "\<not> nextFault demoWorld"
    by (simp_all add: demoWorld_def nextFault_def)
  have b: "\<forall>s \<in> set (chatSessions ?w). \<not> (cs_id s = js ''s1'' \<and> cs_userId s = js ''bob'')"
    by (simp add: demoSession_def js_def)
  show ?thesis
    using a b update_delete_report_success [of ?w "js ''bob''" "js ''s1''" "js ''mine''"]
    by simp
qed

section \<open>Recording tool executions\<close>

lemma storeMemory_result: "fst (storeMemory ext w userId text appId meta) = Inr ()"
  by (simp add: storeMemory_def dbStatement_def split: sum.splits prod.splits)

lemma storeMemory_toolExecutions:
  "toolExecutions (snd (storeMemory ext w userId text appId meta)) = toolExecutions w"
  by (simp add: storeMemory_def dbStatement_def insertMemoryEmbedding_def freshUuid_def
      readClock_def split: sum.splits prod.splits)

lemma storeMemory_memoryEmbeddings:
  "memoryEmbeddings (snd (storeMemory ext w userId text appId meta)) =
     (if enabled w \<and> \<not> nextFault w \<and> (\<exists>v. createEmbedding ext text = Inr v)
      then memoryEmbeddings w @
             [\<lparr> me_id = uuid w (uuidReads w), me_userId = userId,
                me_appId = (if truthy appId then appId else None), me_content = text,
                me_embedding = Some (projr (createEmbedding ext text)), me_metadata = meta,
                me_timestamp = Some (clock w (clockReads w)) \<rparr>]
      else memoryEmbeddings w)"
  by (simp add: storeMemory_def dbStatement_def insertMemoryEmbedding_def freshUuid_def
      readClock_def split: sum.splits prod.splits)

text \<open>
  Claim C6.  \<open>recordToolExecution\<close> never lets an error out.  With a connection and an
  insert that does not throw it appends exactly one \<open>ToolExecution\<close> row, and makes one
  attempt to store the summary as a memory: at most one \<open>MemoryEmbedding\<close> row is added,
  it carries the summary and the \<open>tool_execution\<close> metadata, it is added whenever the
  embedding call and the second insert succeed, and when the embedding call throws no
  memory is added while the \<open>ToolExecution\<close> row stays.
\<close>

theorem recordToolExecution_best_effort:
  "recordToolExecution ext w userId toolName args result success appId = (r, w') \<Longrightarrow>
   r = Inr ()
   \<and> (enabled w \<and> \<not> nextFault w \<longrightarrow>
        (\<exists>row. toolExecutions w' = toolExecutions w @ [row]
               \<and> te_userId row = userId \<and> te_appId row = appId \<and> te_toolName row = toolName
               \<and> te_args row = args \<and> te_result row = result
               \<and> te_success row = (if success then js ''success'' else js ''error''))
        \<and> (memoryEmbeddings w' = memoryEmbeddings w
             \<or> (\<exists>m. memoryEmbeddings w' = memoryEmbeddings w @ [m]
                    \<and> me_userId m = userId
                    \<and> me_content m = executionSummary ext toolName args success
                    \<and> me_metadata m = Some (executionMetadata toolName success)))
        \<and> ((\<exists>e. createEmbedding ext (executionSummary ext toolName args success) = Inl e) \<longrightarrow>
               memoryEmbeddings w' = memoryEmbeddings w)
        \<and> ((\<exists>v. createEmbedding ext (executionSummary ext toolName args success) = Inr v)
             \<and> \<not> nextFault (roundTrip w) \<longrightarrow>
               (\<exists>m. memoryEmbeddings w' = memoryEmbeddings w @ [m]
                    \<and> me_userId m = userId
                    \<and> me_content m = executionSummary ext toolName args success
                    \<and> me_metadata m = Some (executionMetadata toolName success))))"
proof -
  assume run: "recordToolExecution ext w userId toolName args result success appId = (r, w')"
  let ?s = "executionSummary ext toolName args success"
  let ?m = "Some (executionMetadata toolName success)"
  have r: "r = Inr ()"
    using run by (auto simp: recordToolExecution_def split: if_splits sum.splits prod.splits)
  have rest: ?thesis if en: "enabled w" and nf: "\<not> nextFault w"
  proof -
    obtain u w1 where ins: "insertToolExecution userId appId toolName args result success (roundTrip w) = (u, w1)"
      by (cases "insertToolExecution userId appId toolName args result success (roundTrip w)")
    have w1: "toolExecutions w1 = toolExecutions w @
                 [\<lparr> te_id = uuid w (uuidReads w), te_userId = userId, te_appId = appId,
                    te_toolName = toolName, te_args = args, te_result = result,
                    te_success = (if success then js ''success'' else js ''error''),
                    te_timestamp = clock w (clockReads w) \<rparr>]"
      and m1: "memoryEmbeddings w1 = memoryEmbeddings w"
      and e1: "enabled w1" and f1: "nextFault w1 = nextFault (roundTrip w)"
      using ins en by (auto simp: insertToolExecution_def freshUuid_def readClock_def nextFault_def)
    have w': "w' = snd (storeMemory ext w1 userId ?s appId ?m)"
      using run en nf ins
      by (auto simp: recordToolExecution_def dbStatement_ok split: sum.splits prod.splits)
    have t: "toolExecutions w' = toolExecutions w1"
      by (simp add: w' storeMemory_toolExecutions)
    have m: "memoryEmbeddings w' =
       (if \<not> nextFault (roundTrip w) \<and> (\<exists>v. createEmbedding ext ?s = Inr v)
        then memoryEmbeddings w @
             [\<lparr> me_id = uuid w1 (uuidReads w1), me_userId = userId,
                me_appId = (if truthy appId then appId else None), me_content = ?s,
                me_embedding = Some (projr (createEmbedding ext ?s)), me_metadata = ?m,
                me_timestamp = Some (clock w1 (clockReads w1)) \<rparr>]
        else memoryEmbeddings w)"
      by (simp add: w' storeMemory_memoryEmbeddings e1 f1 m1)
    show ?thesis
      using r t w1 m by auto
  qed
  show ?thesis using r rest by blast
qed

theorem recordToolExecution_best_effort_witness:
  "enabled demoWorld \<and> \<not> nextFault demoWorld
   \<and> createEmbedding (demoExternals\<lparr>openai := None\<rparr>)
         (executionSummary (demoExternals\<lparr>openai := None\<rparr>) (js ''create_file'')
            (JObj [(js ''path'', JStr (js ''a.txt''))]) True) = Inl ConfigurationError
   \<and> fst (recordToolExecution (demoExternals\<lparr>openai := None\<rparr>) demoWorld (js ''u1'')
            (js ''create_file'') (JObj [(js ''path'', JStr (js ''a.txt''))])
            (JObj [(js ''ok'', JBool True)]) True None) = Inr ()
   \<and> (\<exists>row. toolExecutions
                (snd (recordToolExecution (demoExternals\<lparr>openai := None\<rparr>) demoWorld (js ''u1'')
                        (js ''create_file'') (JObj [(js ''path'', JStr (js ''a.txt''))])
                        (JObj [(js ''ok'', JBool True)]) True None)) = [row]
            \<and> te_toolName row = js ''create_file'' \<and> te_success row = js ''success'')
   \<and> memoryEmbeddings
         (snd (recordToolExecution (demoExternals\<lparr>openai := None\<rparr>) demoWorld (js ''u1'')
                 (js ''create_file'') (JObj [(js ''path'', JStr (js ''a.txt''))])
                 (JObj [(js ''ok'', JBool True)]) True None)) = []"
proof -
  let ?ext = "demoExternals\<lparr>openai := None\<rparr>"
  let ?args = "JObj [(js ''path'', JStr (js ''a.txt''))]"
  let ?run = "recordToolExecution ?ext demoWorld (js ''u1'') (js ''create_file'') ?args
                (JObj [(js ''ok'', JBool True)]) True None"
  have pre: "?run = (fst ?run, snd ?run)"
    by simp
  have en: "enabled demoWorld" and tables: "toolExecutions demoWorld = []"
    "memoryEmbeddings demoWorld = []"
    by (simp_all add: demoWorld_def)
  have ce: "createEmbedding ?ext (executionSummary ?ext (js ''create_file'') ?args True)
              = Inl ConfigurationError"
    by (simp add: createEmbedding_def)
  show ?thesis
    using recordToolExecution_best_effort [OF pre] en demo_nextFault ce tables
    by auto
qed

section \<open>The personalized context\<close>

lemma toSearchResults_similarity:
  "map similarity (fst (toSearchResults ext q rs w)) =
     map (\<lambda>r. case rowSimilarity ext q r of None \<Rightarrow> 0 | Some s \<Rightarrow> s) rs"
  by (induction rs arbitrary: w) (simp_all add: split_beta split: option.splits)

lemma toSearchResults_length: "length (fst (toSearchResults ext q rs w)) = length rs"
  by (induction rs arbitrary: w) (simp_all add: split_beta split: option.splits)

lemma filter_similarity_empty:
  "filter (\<lambda>m. similarity m > 7 / 10) (fst (toSearchResults ext q rs w)) = [] \<longleftrightarrow>
     (\<forall>r \<in> set rs. case rowSimilarity ext q r of None \<Rightarrow> True | Some s \<Rightarrow> s \<le> 7 / 10)"
proof -
  have "filter (\<lambda>m. similarity m > 7 / 10) (fst (toSearchResults ext q rs w)) = [] \<longleftrightarrow>
        (\<forall>x \<in> set (map similarity (fst (toSearchResults ext q rs w))). \<not> x > 7 / 10)"
    by (auto simp: filter_empty_conv)
  also have "\<dots> \<longleftrightarrow> (\<forall>r \<in> set rs. \<not> (case rowSimilarity ext q r of None \<Rightarrow> 0 | Some s \<Rightarrow> s) > 7 / 10)"
    by (simp add: toSearchResults_similarity)
  also have "\<dots> \<longleftrightarrow> (\<forall>r \<in> set rs. case rowSimilarity ext q r of None \<Rightarrow> True | Some s \<Rightarrow> s \<le> 7 / 10)"
    by (auto split: option.splits simp: not_less)
  finally show ?thesis .
qed

lemma searchMemories_length: "length (fst (searchMemories ext w userId query appId limit)) \<le> limit"
proof -
  have "length (filter P (fst (toSearchResults ext q (take limit rs) w'))) \<le> limit" for P q rs w'
    using length_filter_le [of P "fst (toSearchResults ext q (take limit rs) w')"]
    by (simp add: toSearchResults_length)
  then show ?thesis
    by (simp add: searchMemories_def dbStatement_def split_beta split: sum.splits)
qed

lemma map_snd_map_filter:
  "map snd (List.map_filter (\<lambda>r. map_option (\<lambda>d. (d, r)) (g r)) rows) = filter (\<lambda>r. g r \<noteq> None) rows"
  by (induction rows) (auto simp: List.map_filter_simps split: option.splits)

lemma set_nearestFirst: "set (nearestFirst ext q rows) = set rows"
proof -
  have "set (map snd (sort_key fst (List.map_filter (\<lambda>r. map_option (\<lambda>d. (d, r)) (rowDistance ext q r)) rows)))
        = set (map snd (List.map_filter (\<lambda>r. map_option (\<lambda>d. (d, r)) (rowDistance ext q r)) rows))"
    by simp
  then show ?thesis
    by (auto simp: nearestFirst_def map_snd_map_filter simp del: set_map)
qed

lemma sorted_hd_min: "sorted (map f ys) \<Longrightarrow> y \<in> set ys \<Longrightarrow> f (hd ys) \<le> f y"
  by (cases ys) auto

lemma nearestFirst_head:
  assumes "r \<in> set rows" and "rowDistance ext q r = Some d"
  shows "\<exists>h d'. nearestFirst ext q rows \<noteq> [] \<and> hd (nearestFirst ext q rows) = h
               \<and> h \<in> set rows \<and> rowDistance ext q h = Some d' \<and> d' \<le> d"
proof -
  define ps where "ps = List.map_filter (\<lambda>r. map_option (\<lambda>d. (d, r)) (rowDistance ext q r)) rows"
  define ss where "ss = sort_key fst ps"
  have set_ps: "set ps = {p. \<exists>x. x \<in> set rows \<and> map_option (\<lambda>d. (d, x)) (rowDistance ext q x) = Some p}"
    unfolding ps_def by (induction rows) (auto simp: List.map_filter_simps split: option.splits)
  have mem: "(d, r) \<in> set ps"
    unfolding set_ps using assms by auto
  have all: "snd p \<in> set rows \<and> rowDistance ext q (snd p) = Some (fst p)" if "p \<in> set ps" for p
    using that unfolding set_ps by auto
  have set_ss: "set ss = set ps"
    by (simp add: ss_def)
  have ne: "ss \<noteq> []"
    using mem set_ss by auto
  have sorted: "sorted (map fst ss)"
    by (simp add: ss_def)
  have "(d, r) \<in> set ss"
    using mem set_ss by simp
  then have le: "fst (hd ss) \<le> d"
    using sorted_hd_min [OF sorted, of "(d, r)"] by simp
  have "hd ss \<in> set ps"
    using ne set_ss hd_in_set by blast
  then have hd_ok: "snd (hd ss) \<in> set rows" "rowDistance ext q (snd (hd ss)) = Some (fst (hd ss))"
    using all by blast+
  have nf: "nearestFirst ext q rows = map snd ss @ filter (\<lambda>r. rowDistance ext q r = None) rows"
    by (simp add: nearestFirst_def ss_def ps_def)
  have hd_eq: "hd (nearestFirst ext q rows) = snd (hd ss)" and ne': "nearestFirst ext q rows \<noteq> []"
    using ne by (simp_all add: nf hd_append hd_map)
  show ?thesis
    using ne' hd_eq hd_ok le by blast
qed

lemma searchMemories_empty_iff:
  assumes "enabled w" and "\<not> nextFault w" and "createEmbedding ext query = Inr q" and "0 < limit"
  shows "fst (searchMemories ext w userId query appId limit) = [] \<longleftrightarrow>
           (\<forall>r \<in> set (memoryEmbeddings w). memoryScope userId appId r \<longrightarrow>
              (case rowSimilarity ext q r of None \<Rightarrow> True | Some s \<Rightarrow> s \<le> 7 / 10))"
proof -
  let ?rows = "filter (memoryScope userId appId) (memoryEmbeddings w)"
  let ?ok = "\<lambda>r. case rowSimilarity ext q r of None \<Rightarrow> True | Some s \<Rightarrow> s \<le> 7 / 10"
  have "fst (searchMemories ext w userId query appId limit) =
          filter (\<lambda>m. similarity m > 7 / 10)
            (fst (toSearchResults ext q (take limit (nearestFirst ext q ?rows)) (roundTrip w)))"
    using assms by (simp add: searchMemories_def dbStatement_ok split_beta)
  then have eq: "fst (searchMemories ext w userId query appId limit) = [] \<longleftrightarrow>
                   (\<forall>r \<in> set (take limit (nearestFirst ext q ?rows)). ?ok r)"
    by (simp only: filter_similarity_empty)
  have "(\<forall>r \<in> set (take limit (nearestFirst ext q ?rows)). ?ok r) \<longleftrightarrow> (\<forall>r \<in> set ?rows. ?ok r)"
  proof
    assume a: "\<forall>r \<in> set (take limit (nearestFirst ext q ?rows)). ?ok r"
    show "\<forall>r \<in> set ?rows. ?ok r"
    proof (rule ccontr)
      assume "\<not> (\<forall>r \<in> set ?rows. ?ok r)"
      then obtain r where r: "r \<in> set ?rows" and nok: "\<not> ?ok r"
        by blast
      obtain s where s: "rowSimilarity ext q r = Some s" "s > 7 / 10"
        using nok by (cases "rowSimilarity ext q r") (simp_all add: not_le)
      obtain d where d: "rowDistance ext q r = Some d" "s = 1 - d"
        using s(1) by (cases "rowDistance ext q r") (auto simp: rowSimilarity_def)
      obtain h d' where h: "nearestFirst ext q ?rows \<noteq> []" "hd (nearestFirst ext q ?rows) = h"
        "rowDistance ext q h = Some d'" "d' \<le> d"
        using nearestFirst_head [OF r d(1)] by blast
      have "h \<in> set (take limit (nearestFirst ext q ?rows))"
        using h(1,2) assms(4) by (cases "nearestFirst ext q ?rows"; cases limit) auto
      then have "?ok h" using a by blast
      then have "1 - d' \<le> 7 / 10"
        using h(3) by (simp add: rowSimilarity_def)
      then show False
        using h(4) d(2) s(2) by linarith
    qed
  next
    assume b: "\<forall>r \<in> set ?rows. ?ok r"
    show "\<forall>r \<in> set (take limit (nearestFirst ext q ?rows)). ?ok r"
    proof
      fix r
      assume "r \<in> set (take limit (nearestFirst ext q ?rows))"
      then have "r \<in> set (nearestFirst ext q ?rows)"
        by (rule in_set_takeD)
      then have "r \<in> set ?rows"
        by (simp only: set_nearestFirst)
      then show "?ok r" using b by blast
    qed
  qed
  then have mid: "(\<forall>r \<in> set (take limit (nearestFirst ext q ?rows)). ?ok r) \<longleftrightarrow>
                    (\<forall>r \<in> set ?rows. ?ok r)" .
  have final: "(\<forall>r \<in> set ?rows. ?ok r) \<longleftrightarrow>
         (\<forall>r \<in> set (memoryEmbeddings w). memoryScope userId appId r \<longrightarrow> ?ok r)"
    unfolding set_filter by blast
  show ?thesis
    by (simp only: eq mid final)
qed


lemma getPersistentMemory_ok:
  "enabled w \<Longrightarrow> \<not> nextFault w \<Longrightarrow>
   getPersistentMemory w userId =
     ((case take 1 (filter (\<lambda>r. pm_userId r = userId) (userPersistentMemory w)) of
         [] \<Rightarrow> None | r # rs \<Rightarrow> Some (pm_content r)), roundTrip w)"
  by (simp add: getPersistentMemory_def dbStatement_ok)

text \<open>
  Claim C1.  Let \<open>pm\<close> be what \<open>getPersistentMemory\<close> returns and \<open>mems\<close> what
  \<open>searchMemories\<close> (limit 3) returns next.  The context is the empty string exactly
  when \<open>pm\<close> is absent or empty and \<open>mems\<close> is empty; otherwise it is a newline, the
  persistent memory verbatim under its heading (when there is one), then the heading of
  the relevant memories and at most three lines
  \<open>- {content} (similarity: {toFixed(2)})\<close>, each with a similarity above 0.7, and a
  newline.  In terms of the store: with a connection, queries that do not throw and an
  embedding of the query, the context is empty exactly when the user's persistent memory
  row (the first, should there be several) is absent or empty and no memory row in scope
  has a similarity above 0.7.
\<close>

theorem getPersonalizedContext_shape:
  assumes pm: "getPersistentMemory w userId = (pm, w1)"
    and mems: "searchMemories ext w1 userId query appId 3 = (mems, w2)"
  shows "getPersonalizedContext ext w userId query appId =
           ((if \<not> truthy pm \<and> mems = [] then []
             else [10]
                  @ (if truthy pm then PERSISTENT_HEADING @ the pm @ [10, 10] else [])
                  @ (if mems = [] then []
                     else RELEVANT_HEADING
                          @ joinWith [10]
                              (map (\<lambda>m. js ''- '' @ content m @ js '' (similarity: ''
                                         @ toFixed2 ext (similarity m) @ js '')'') mems)
                          @ [10])
                  @ [10]), w2)
         \<and> length mems \<le> 3
         \<and> (\<forall>m \<in> set mems. similarity m > 7 / 10)
         \<and> (fst (getPersonalizedContext ext w userId query appId) = [] \<longleftrightarrow>
               \<not> truthy pm \<and> mems = [])
         \<and> (enabled w \<and> \<not> nextFault w \<and> \<not> nextFault (roundTrip w)
              \<and> createEmbedding ext query = Inr q \<longrightarrow>
               (fst (getPersonalizedContext ext w userId query appId) = [] \<longleftrightarrow>
                  (\<forall>r \<in> set (take 1 (filter (\<lambda>r. pm_userId r = userId) (userPersistentMemory w))).
                      pm_content r = [])
                  \<and> (\<forall>r \<in> set (memoryEmbeddings w). memoryScope userId appId r \<longrightarrow>
                        (case rowSimilarity ext q r of None \<Rightarrow> True | Some s \<Rightarrow> s \<le> 7 / 10))))"
proof -
  let ?ctx = "fst (getPersonalizedContext ext w userId query appId)"
  have shape: "getPersonalizedContext ext w userId query appId =
           ((if \<not> truthy pm \<and> mems = [] then []
             else [10]
                  @ (if truthy pm then PERSISTENT_HEADING @ the pm @ [10, 10] else [])
                  @ (if mems = [] then []
                     else RELEVANT_HEADING
                          @ joinWith [10]
                              (map (\<lambda>m. js ''- '' @ content m @ js '' (similarity: ''
                                         @ toFixed2 ext (similarity m) @ js '')'') mems)
                          @ [10])
                  @ [10]), w2)"
    by (simp add: getPersonalizedContext_def pm mems Let_def contextPart_def [abs_def])
  have len: "length mems \<le> 3"
    using searchMemories_length [of ext w1 userId query appId 3] by (simp add: mems)
  have thr: "\<forall>m \<in> set mems. similarity m > 7 / 10"
    using mems by (auto simp: searchMemories_def split_beta split: if_splits sum.splits)
  have empty: "?ctx = [] \<longleftrightarrow> \<not> truthy pm \<and> mems = []"
    by (simp add: shape)
  have store: "?ctx = [] \<longleftrightarrow>
                  (\<forall>r \<in> set (take 1 (filter (\<lambda>r. pm_userId r = userId) (userPersistentMemory w))).
                      pm_content r = [])
                  \<and> (\<forall>r \<in> set (memoryEmbeddings w). memoryScope userId appId r \<longrightarrow>
                        (case rowSimilarity ext q r of None \<Rightarrow> True | Some s \<Rightarrow> s \<le> 7 / 10))"
    if en: "enabled w" and f1: "\<not> nextFault w" and f2: "\<not> nextFault (roundTrip w)"
      and emb: "createEmbedding ext query = Inr q"
  proof -
    have pm_eq: "pm = (case take 1 (filter (\<lambda>r. pm_userId r = userId) (userPersistentMemory w)) of
                         [] \<Rightarrow> None | r # rs \<Rightarrow> Some (pm_content r))"
      and w1: "w1 = roundTrip w"
      using pm getPersistentMemory_ok [OF en f1, of userId] by simp_all
    have a: "\<not> truthy pm \<longleftrightarrow>
               (\<forall>r \<in> set (take 1 (filter (\<lambda>r. pm_userId r = userId) (userPersistentMemory w))).
                  pm_content r = [])"
      unfolding pm_eq
      by (cases "filter (\<lambda>r. pm_userId r = userId) (userPersistentMemory w)") (simp_all add: truthy_def)
    have "fst (searchMemories ext w1 userId query appId 3) = [] \<longleftrightarrow>
            (\<forall>r \<in> set (memoryEmbeddings w1). memoryScope userId appId r \<longrightarrow>
               (case rowSimilarity ext q r of None \<Rightarrow> True | Some s \<Rightarrow> s \<le> 7 / 10))"
      by (rule searchMemories_empty_iff) (simp_all add: w1 en f2 emb)
    moreover have "fst (searchMemories ext w1 userId query appId 3) = mems"
      by (simp add: mems)
    moreover have "memoryEmbeddings w1 = memoryEmbeddings w"
      by (simp add: w1)
    ultimately have b: "mems = [] \<longleftrightarrow>
            (\<forall>r \<in> set (memoryEmbeddings w). memoryScope userId appId r \<longrightarrow>
               (case rowSimilarity ext q r of None \<Rightarrow> True | Some s \<Rightarrow> s \<le> 7 / 10))"
      by (simp only:)
    show ?thesis
      by (simp only: empty a b)
  qed
  show ?thesis
    using shape len thr empty store by blast
qed


theorem getPersonalizedContext_shape_witness:
  "enabled demoWorld \<and> \<not> nextFault demoWorld \<and> \<not> nextFault (roundTrip demoWorld)
   \<and> createEmbedding demoExternals (js ''what language do I use'') = Inr [1, 0]
   \<and> fst (getPersonalizedContext demoExternals demoWorld (js ''u1'')
            (js ''what language do I use'') None) = []
   \<and> fst (getPersonalizedContext demoExternals
            (demoWorld\<lparr>memoryEmbeddings :=
                         [demoMemory (js ''u1'') (js ''I prefer tabs'') [3 / 5, 4 / 5],
                          demoMemory (js ''u1'') (js ''I use TypeScript'') [9 / 10, 0]],
                       userPersistentMemory := [demoPersistent (js ''u1'') (js ''Likes tea'')]\<rparr>)
            (js ''u1'') (js ''what language do I use'') None)
       = [10] @ js ''## Persistent User Context'' @ [10] @ js ''Likes tea'' @ [10, 10]
         @ js ''## Recent Relevant Context'' @ [10] @ js ''Based on previous interactions:''
         @ [10] @ js ''- I use TypeScript (similarity: 0.90)'' @ [10] @ [10]"
proof -
  let ?q = "js ''what language do I use''"
  let ?W = "demoWorld\<lparr>memoryEmbeddings :=
                         [demoMemory (js ''u1'') (js ''I prefer tabs'') [3 / 5, 4 / 5],
                          demoMemory (js ''u1'') (js ''I use TypeScript'') [9 / 10, 0]],
                       userPersistentMemory := [demoPersistent (js ''u1'') (js ''Likes tea'')]\<rparr>"
  have hyp: "enabled demoWorld" "\<not> nextFault demoWorld" "\<not> nextFault (roundTrip demoWorld)"
    by (simp_all add: demoWorld_def nextFault_def)
  have empty_tables: "userPersistentMemory demoWorld = []" "memoryEmbeddings demoWorld = []"
    by (simp_all add: demoWorld_def)
  have p0: "getPersistentMemory demoWorld (js ''u1'')
              = (fst (getPersistentMemory demoWorld (js ''u1'')),
                 snd (getPersistentMemory demoWorld (js ''u1'')))"
    by simp
  have s0: "searchMemories demoExternals (snd (getPersistentMemory demoWorld (js ''u1''))) (js ''u1'') ?q None 3
              = (fst (searchMemories demoExternals (snd (getPersistentMemory demoWorld (js ''u1''))) (js ''u1'') ?q None 3),
                 snd (searchMemories demoExternals (snd (getPersistentMemory demoWorld (js ''u1''))) (js ''u1'') ?q None 3))"
    by simp
  have "fst (getPersonalizedContext demoExternals demoWorld (js ''u1'') ?q None) = [] \<longleftrightarrow>
          (\<forall>r \<in> set (take 1 (filter (\<lambda>r. pm_userId r = js ''u1'') (userPersistentMemory demoWorld))).
              pm_content r = [])
          \<and> (\<forall>r \<in> set (memoryEmbeddings demoWorld). memoryScope (js ''u1'') None r \<longrightarrow>
                (case rowSimilarity demoExternals [1, 0] r of None \<Rightarrow> True | Some s \<Rightarrow> s \<le> 7 / 10))"
    using getPersonalizedContext_shape [OF p0 s0, of "[1, 0]"] hyp demo_createEmbedding [of ?q]
    by blast
  then have first: "fst (getPersonalizedContext demoExternals demoWorld (js ''u1'') ?q None) = []"
    by (simp add: empty_tables)
  have rt: "roundTrip ?W = ?W"
    by (simp add: roundTrip_def demoWorld_def)
  have p1: "getPersistentMemory ?W (js ''u1'') = (Some (js ''Likes tea''), ?W)"
    by (simp add: getPersistentMemory_def dbStatement_def rt)
       (simp add: demoWorld_def nextFault_def demoPersistent_def)
  have near: "nearestFirst demoExternals [1, 0]
                [demoMemory (js ''u1'') (js ''I prefer tabs'') [3 / 5, 4 / 5],
                 demoMemory (js ''u1'') (js ''I use TypeScript'') [9 / 10, 0]]
              = [demoMemory (js ''u1'') (js ''I use TypeScript'') [9 / 10, 0],
                 demoMemory (js ''u1'') (js ''I prefer tabs'') [3 / 5, 4 / 5]]"
    by (simp add: nearestFirst_def demo_rowDistance List.map_filter_simps)
  have s1: "searchMemories demoExternals ?W (js ''u1'') ?q None 3
     = ([\<lparr> content = js ''I use TypeScript'', metadata = None, similarity = 9 / 10,
           timestamp = 5 \<rparr>], ?W)"
    by (simp add: searchMemories_def demo_createEmbedding dbStatement_def rt)
       (simp add: demoWorld_def nextFault_def memoryScope_def truthy_def near rowSimilarity_def
          demo_rowDistance, simp add: demoMemory_def)
  have fmt: "toFixed2 demoExternals (9 / 10) = js ''0.90''"
    by (simp add: demoExternals_def js_def Let_def)
  have second: "fst (getPersonalizedContext demoExternals ?W (js ''u1'') ?q None)
       = [10] @ js ''## Persistent User Context'' @ [10] @ js ''Likes tea'' @ [10, 10]
         @ js ''## Recent Relevant Context'' @ [10] @ js ''Based on previous interactions:''
         @ [10] @ js ''- I use TypeScript (similarity: 0.90)'' @ [10] @ [10]"
  proof -
    have "getPersonalizedContext demoExternals ?W (js ''u1'') ?q None =
           ((if \<not> truthy (Some (js ''Likes tea'')) \<and> [\<lparr> content = js ''I use TypeScript'', metadata = None, similarity = 9 / 10,
           timestamp = 5 \<rparr>] = [] then []
             else [10]
                  @ (if truthy (Some (js ''Likes tea'')) then PERSISTENT_HEADING @ the (Some (js ''Likes tea'')) @ [10, 10] else [])
                  @ (if [\<lparr> content = js ''I use TypeScript'', metadata = None, similarity = 9 / 10,
           timestamp = 5 \<rparr>] = [] then []
                     else RELEVANT_HEADING
                          @ joinWith [10]
                              (map (\<lambda>m. js ''- '' @ content m @ js '' (similarity: ''
                                         @ toFixed2 demoExternals (similarity m) @ js '')'') [\<lparr> content = js ''I use TypeScript'', metadata = None, similarity = 9 / 10,
           timestamp = 5 \<rparr>])
                          @ [10])
                  @ [10]), ?W)"
      using getPersonalizedContext_shape [OF p1 s1, of "[1, 0]"] by blast
    then show ?thesis
      by (simp add: truthy_def joinWith_def fmt PERSISTENT_HEADING_def RELEVANT_HEADING_def js_def)
  qed
  show ?thesis
    using hyp demo_createEmbedding first second by simp
qed

section \<open>Appending to the persistent memory\<close>

lemma roundTrip_calm: "faults w = [] \<Longrightarrow> roundTrip w = w"
  by (simp add: roundTrip_def)

lemma nextFault_calm: "faults w = [] \<Longrightarrow> \<not> nextFault w"
  by (simp add: nextFault_def)

lemma dbStatement_calm: "faults w = [] \<Longrightarrow> dbStatement w run = (Inr (fst (run w)), snd (run w))"
  by (simp add: dbStatement_ok nextFault_calm roundTrip_calm)

lemma ensureUser_calm:
  assumes "enabled w" and "faults w = []"
  shows "enabled (snd (ensureUser w userId email name))
         \<and> faults (snd (ensureUser w userId email name)) = []
         \<and> userPersistentMemory (snd (ensureUser w userId email name)) = userPersistentMemory w"
  using assms
  by (simp add: ensureUser_def dbStatement_calm readClock_def Let_def split: list.splits)

lemma setPersistentMemory_calm:
  assumes "enabled w" and "faults w = []"
  shows "fst (setPersistentMemory w userId text) = Inr ()
         \<and> enabled (snd (setPersistentMemory w userId text))
         \<and> faults (snd (setPersistentMemory w userId text)) = []
         \<and> userPersistentMemory (snd (setPersistentMemory w userId text)) =
             filter (\<lambda>r. pm_userId r \<noteq> userId) (userPersistentMemory w)
             @ [\<lparr> pm_id = uuid w (uuidReads w), pm_userId = userId, pm_content = text,
                  pm_createdAt = clock w (clockReads w), pm_updatedAt = clock w (clockReads w) \<rparr>]"
  using assms
  by (simp add: setPersistentMemory_def dbStatement_calm deletePersistentMemory_def
      insertPersistentMemory_def freshUuid_def readClock_def)

lemma getPersistentMemory_calm:
  assumes "enabled w" and "faults w = []"
  shows "getPersistentMemory w userId =
           ((case filter (\<lambda>r. pm_userId r = userId) (userPersistentMemory w) of
               [] \<Rightarrow> None | r # rs \<Rightarrow> Some (pm_content r)), w)"
  using assms
  by (cases "filter (\<lambda>r. pm_userId r = userId) (userPersistentMemory w)")
     (simp_all add: getPersistentMemory_def dbStatement_calm)

lemma get_after_set:
  assumes "enabled w" and "faults w = []"
  shows "fst (getPersistentMemory (snd (setPersistentMemory w userId text)) userId) = Some text"
proof -
  let ?w = "snd (setPersistentMemory w userId text)"
  have s: "enabled ?w" "faults ?w = []"
    and u: "userPersistentMemory ?w = filter (\<lambda>r. pm_userId r \<noteq> userId) (userPersistentMemory w)
             @ [\<lparr> pm_id = uuid w (uuidReads w), pm_userId = userId, pm_content = text,
                  pm_createdAt = clock w (clockReads w), pm_updatedAt = clock w (clockReads w) \<rparr>]"
    using setPersistentMemory_calm [OF assms, of userId "text"] by simp_all
  have "filter (\<lambda>r. pm_userId r = userId) (filter (\<lambda>r. pm_userId r \<noteq> userId) (userPersistentMemory w)) = []"
    by (simp add: filter_empty_conv)
  then show ?thesis
    by (simp add: getPersistentMemory_calm [OF s] u)
qed

text \<open>
  Claim C3, amended.  On a store with a connection and no failing round trip, for a
  non-empty user id and a non-empty \<open>content1\<close>: after
  \<open>setPersistentMemory(userId, content1)\<close>, the append action with \<open>content2\<close>
  answers \<open>success\<close> and \<open>getPersistentMemory(userId)\<close> then returns \<open>content1\<close>, a
  blank line, \<open>content2\<close>.  (The append action treats an empty existing memory as no
  memory at all and stores \<open>content2\<close> alone: \<open>append_to_empty\<close>.)
\<close>

theorem set_append_get:
  assumes "enabled w" and "faults w = []" and "userId \<noteq> []" and "content1 \<noteq> []"
  shows "fst (persistentMemoryAction (snd (setPersistentMemory w userId content1))
                \<lparr> rq_userId = userId, rq_action = ActAppend, rq_content = Some content2,
                  rq_email = email, rq_name = name \<rparr>) = MemorySuccess
         \<and> fst (getPersistentMemory
                  (snd (persistentMemoryAction (snd (setPersistentMemory w userId content1))
                          \<lparr> rq_userId = userId, rq_action = ActAppend, rq_content = Some content2,
                            rq_email = email, rq_name = name \<rparr>)) userId)
             = Some (content1 @ [10, 10] @ content2)"
proof -
  let ?w1 = "snd (setPersistentMemory w userId content1)"
  let ?w2 = "snd (ensureUser ?w1 userId email name)"
  let ?rq = "\<lparr> rq_userId = userId, rq_action = ActAppend, rq_content = Some content2,
               rq_email = email, rq_name = name \<rparr>"
  have c1: "enabled ?w1" "faults ?w1 = []"
    using setPersistentMemory_calm [OF assms(1,2), of userId content1] by simp_all
  have c2: "enabled ?w2" "faults ?w2 = []"
    and u2: "userPersistentMemory ?w2 = userPersistentMemory ?w1"
    using ensureUser_calm [OF c1, of userId email name] by simp_all
  have "fst (getPersistentMemory ?w1 userId) = Some content1"
    by (rule get_after_set [OF assms(1,2)])
  then have g2: "getPersistentMemory ?w2 userId = (Some content1, ?w2)"
    by (simp add: getPersistentMemory_calm [OF c1] getPersistentMemory_calm [OF c2] u2)
  let ?w3 = "snd (setPersistentMemory ?w2 userId (content1 @ [10, 10] @ content2))"
  have act: "persistentMemoryAction ?w1 ?rq = (MemorySuccess, ?w3)"
    using assms(3,4) c1 g2 setPersistentMemory_calm [OF c2, of userId "content1 @ [10, 10] @ content2"]
    by (simp add: persistentMemoryAction_def split_beta truthy_def Let_def split: sum.splits)
  show ?thesis
    by (simp add: act get_after_set [OF c2])
qed


lemma append_to_empty:
  assumes "enabled w" and "faults w = []" and "userId \<noteq> []"
  shows "fst (getPersistentMemory
                  (snd (persistentMemoryAction (snd (setPersistentMemory w userId []))
                          \<lparr> rq_userId = userId, rq_action = ActAppend, rq_content = Some content2,
                            rq_email = email, rq_name = name \<rparr>)) userId)
             = Some content2"
proof -
  let ?w1 = "snd (setPersistentMemory w userId [])"
  let ?w2 = "snd (ensureUser ?w1 userId email name)"
  let ?rq = "\<lparr> rq_userId = userId, rq_action = ActAppend, rq_content = Some content2,
               rq_email = email, rq_name = name \<rparr>"
  have c1: "enabled ?w1" "faults ?w1 = []"
    using setPersistentMemory_calm [OF assms(1,2), of userId "[]"] by simp_all
  have c2: "enabled ?w2" "faults ?w2 = []"
    and u2: "userPersistentMemory ?w2 = userPersistentMemory ?w1"
    using ensureUser_calm [OF c1, of userId email name] by simp_all
  have "fst (getPersistentMemory ?w1 userId) = Some []"
    by (rule get_after_set [OF assms(1,2)])
  then have g2: "getPersistentMemory ?w2 userId = (Some [], ?w2)"
    by (simp add: getPersistentMemory_calm [OF c1] getPersistentMemory_calm [OF c2] u2)
  let ?w3 = "snd (setPersistentMemory ?w2 userId content2)"
  have act: "persistentMemoryAction ?w1 ?rq = (MemorySuccess, ?w3)"
    using assms(3) c1 g2 setPersistentMemory_calm [OF c2, of userId content2]
    by (simp add: persistentMemoryAction_def split_beta truthy_def Let_def split: sum.splits)
  show ?thesis
    by (simp add: act get_after_set [OF c2])
qed

lemma demo_calm: "enabled demoWorld" "faults demoWorld = []"
  by (simp_all add: demoWorld_def)

text \<open>
  The claim as stated fails for \<open>content1 = ''\<close>: the memory read back is \<open>b\<close>, not a
  blank line followed by \<open>b\<close>.
\<close>

theorem set_append_get_counterexample:
  "fst (getPersistentMemory
          (snd (persistentMemoryAction (snd (setPersistentMemory demoWorld (js ''u1'') []))
                  \<lparr> rq_userId = js ''u1'', rq_action = ActAppend, rq_content = Some (js ''b''),
                    rq_email = None, rq_name = None \<rparr>)) (js ''u1''))
     = Some (js ''b'')
   \<and> Some (js ''b'') \<noteq> Some ([] @ [10, 10] @ js ''b'')"
  using append_to_empty [OF demo_calm, of "js ''u1''" "js ''b''" None None]
  by (simp add: js_def)

theorem set_append_get_witness:
  "enabled demoWorld \<and> faults demoWorld = [] \<and> js ''u1'' \<noteq> [] \<and> js ''a'' \<noteq> []
   \<and> fst (persistentMemoryAction (snd (setPersistentMemory demoWorld (js ''u1'') (js ''a'')))
            \<lparr> rq_userId = js ''u1'', rq_action = ActAppend, rq_content = Some (js ''b''),
              rq_email = None, rq_name = None \<rparr>) = MemorySuccess
   \<and> fst (getPersistentMemory
            (snd (persistentMemoryAction (snd (setPersistentMemory demoWorld (js ''u1'') (js ''a'')))
                    \<lparr> rq_userId = js ''u1'', rq_action = ActAppend, rq_content = Some (js ''b''),
                      rq_email = None, rq_name = None \<rparr>)) (js ''u1''))
       = Some (js ''a'' @ [10, 10] @ js ''b'')"
proof -
  have ne: "js ''u1'' \<noteq> []" "js ''a'' \<noteq> []"
    by (simp_all add: js_def)
  show ?thesis
    using set_append_get [OF demo_calm ne, of "js ''b''" None None] demo_calm ne
    by simp
qed

section \<open>Saving a chat message\<close>

lemma readClock_simps [simp]:
  "fst (readClock w) = clock w (clockReads w)"
  "clock (snd (readClock w)) = clock w"
  "clockReads (snd (readClock w)) = Suc (clockReads w)"
  "enabled (snd (readClock w)) = enabled w"
  "faults (snd (readClock w)) = faults w"
  "chatSessions (snd (readClock w)) = chatSessions w"
  "chatMessages (snd (readClock w)) = chatMessages w"
  by (simp_all add: readClock_def)

lemma insertChatMessage_simps:
  "fst (insertChatMessage userId chatSessionId r text messageIndex meta d) =
      \<lparr> cm_id = uuid d (uuidReads d), cm_chatSessionId = chatSessionId, cm_userId = userId,
        cm_role = r, cm_content = text, cm_messageIndex = messageIndex,
        cm_timestamp = clock d (clockReads d), cm_metadata = meta \<rparr>"
  "chatMessages (snd (insertChatMessage userId chatSessionId r text messageIndex meta d)) =
      chatMessages d @ [fst (insertChatMessage userId chatSessionId r text messageIndex meta d)]"
  "chatSessions (snd (insertChatMessage userId chatSessionId r text messageIndex meta d)) =
      chatSessions d"
  "clock (snd (insertChatMessage userId chatSessionId r text messageIndex meta d)) = clock d"
  "clockReads (snd (insertChatMessage userId chatSessionId r text messageIndex meta d)) =
      Suc (clockReads d)"
  "enabled (snd (insertChatMessage userId chatSessionId r text messageIndex meta d)) = enabled d"
  "faults (snd (insertChatMessage userId chatSessionId r text messageIndex meta d)) = faults d"
  by (simp_all add: insertChatMessage_def freshUuid_def readClock_def Let_def)

lemma nextFault_insertChatMessage [simp]:
  "nextFault (snd (insertChatMessage userId chatSessionId r text messageIndex meta d)) = nextFault d"
  by (simp add: nextFault_def insertChatMessage_simps)

lemma bumpChatSession_simps:
  "chatMessages (snd (bumpChatSession chatSessionId a b d)) = chatMessages d"
  "chatSessions (snd (bumpChatSession chatSessionId a b d)) =
     map (\<lambda>s. if cs_id s = chatSessionId then s\<lparr>cs_lastMessageAt := a, cs_updatedAt := b\<rparr> else s)
       (chatSessions d)"
  by (simp_all add: bumpChatSession_def)

lemma saveChatMessage_unfold:
  assumes "enabled w" and "\<not> nextFault w"
  shows "saveChatMessage w userId chatSessionId r text messageIndex meta =
           (if nextFault (roundTrip w)
            then (None,
                  roundTrip (snd (readClock (snd (readClock
                    (snd (insertChatMessage userId chatSessionId r text messageIndex meta
                            (roundTrip w))))))))
            else (Some (fst (insertChatMessage userId chatSessionId r text messageIndex meta
                               (roundTrip w))),
                  snd (bumpChatSession chatSessionId (clock w (Suc (clockReads w)))
                         (clock w (Suc (Suc (clockReads w))))
                         (roundTrip (snd (readClock (snd (readClock
                            (snd (insertChatMessage userId chatSessionId r text messageIndex meta
                                    (roundTrip w)))))))))))"
proof -
  show ?thesis
    using assms
    by (simp add: saveChatMessage_def dbStatement_ok split_beta)
       (simp add: dbStatement_def split_beta insertChatMessage_simps)
qed

text \<open>
  Claim C5, amended.  When \<open>saveChatMessage\<close> returns the message and the reading of
  \<open>new Date()\<close> for \<open>lastMessageAt\<close> is not earlier than the database's \<open>now()\<close> at
  the insert, the message is stored and every session row with the given id has a
  \<open>lastMessageAt\<close> no earlier than the message's timestamp.  The insert and the update
  are two statements awaited in turn, not one atomic step.
\<close>

theorem saveChatMessage_bumps_session:
  assumes save: "saveChatMessage w userId chatSessionId r text messageIndex meta = (Some message, w')"
    and mono: "clock w (clockReads w) \<le> clock w (Suc (clockReads w))"
  shows "message \<in> set (chatMessages w')
         \<and> cm_chatSessionId message = chatSessionId
         \<and> cm_timestamp message = clock w (clockReads w)
         \<and> (\<forall>s \<in> set (chatSessions w'). cs_id s = chatSessionId \<longrightarrow>
                cm_timestamp message \<le> cs_lastMessageAt s)"
proof -
  have en: "enabled w"
    using save by (auto simp: saveChatMessage_def split: if_splits)
  have f1: "\<not> nextFault w"
    using save en by (auto simp: saveChatMessage_def dbStatement_def split: if_splits)
  note u = saveChatMessage_unfold [OF en f1, of userId chatSessionId r "text" messageIndex meta]
  have f2: "\<not> nextFault (roundTrip w)"
    using save unfolding u by (auto split: if_splits)
  have msg: "message = fst (insertChatMessage userId chatSessionId r text messageIndex meta (roundTrip w))"
    and w': "w' = snd (bumpChatSession chatSessionId (clock w (Suc (clockReads w)))
                         (clock w (Suc (Suc (clockReads w))))
                         (roundTrip (snd (readClock (snd (readClock
                            (snd (insertChatMessage userId chatSessionId r text messageIndex meta
                                    (roundTrip w)))))))))"
    using save f2 unfolding u by simp_all
  have m1: "cm_chatSessionId message = chatSessionId" "cm_timestamp message = clock w (clockReads w)"
    by (simp_all add: msg insertChatMessage_simps)
  have m2: "chatMessages w' = chatMessages w @ [message]"
    by (simp add: msg w' bumpChatSession_simps insertChatMessage_simps)
  have m3: "chatSessions w' =
              map (\<lambda>s. if cs_id s = chatSessionId
                       then s\<lparr>cs_lastMessageAt := clock w (Suc (clockReads w)),
                              cs_updatedAt := clock w (Suc (Suc (clockReads w)))\<rparr>
                       else s) (chatSessions w)"
    by (simp add: w' bumpChatSession_simps insertChatMessage_simps)
  have bumped: "cs_lastMessageAt s = clock w (Suc (clockReads w))"
    if mem: "s \<in> set (chatSessions w')" and sid: "cs_id s = chatSessionId" for s
  proof -
    obtain s0 where "s = (if cs_id s0 = chatSessionId
                          then s0\<lparr>cs_lastMessageAt := clock w (Suc (clockReads w)),
                                  cs_updatedAt := clock w (Suc (Suc (clockReads w)))\<rparr>
                          else s0)"
      using mem unfolding m3 by (auto simp only: set_map image_iff)
    then show ?thesis
      using sid by (cases "cs_id s0 = chatSessionId") simp_all
  qed
  have m4: "\<forall>s \<in> set (chatSessions w'). cs_id s = chatSessionId \<longrightarrow>
                cm_timestamp message \<le> cs_lastMessageAt s"
    using bumped mono m1(2) by simp
  show ?thesis
    using m1 m2 m4 by simp
qed


lemma demo_save:
  "fst (saveChatMessage demoChat (js ''alice'') (js ''s1'') User (js ''hi'') (js ''1'') None) = Some demoSaved"
  "snd (insertChatMessage (js ''alice'') (js ''s1'') User (js ''hi'') (js ''1'') None (roundTrip demoChat))
     = demoChat\<lparr>uuidReads := 1, clockReads := 1, chatMessages := [demoSaved]\<rparr>"
  "chatSessions (snd (saveChatMessage demoChat (js ''alice'') (js ''s1'') User (js ''hi'') (js ''1'') None)) =
     [(demoSession (js ''s1'') (js ''alice'') None)\<lparr>cs_lastMessageAt := 1001, cs_updatedAt := 1002\<rparr>]"
  "chatMessages (snd (saveChatMessage demoChat (js ''alice'') (js ''s1'') User (js ''hi'') (js ''1'') None)) = [demoSaved]"
proof -
  have en: "enabled demoChat" and nf: "\<not> nextFault demoChat" "\<not> nextFault (roundTrip demoChat)"
    and rt: "roundTrip demoChat = demoChat"
    by (simp_all add: demoWorld_def nextFault_def roundTrip_def)
  have ins: "insertChatMessage (js ''alice'') (js ''s1'') User (js ''hi'') (js ''1'') None demoChat
     = (demoSaved, demoChat\<lparr>uuidReads := 1, clockReads := 1, chatMessages := [demoSaved]\<rparr>)"
    by (simp add: insertChatMessage_def freshUuid_def readClock_def demoWorld_def Let_def)
  show "snd (insertChatMessage (js ''alice'') (js ''s1'') User (js ''hi'') (js ''1'') None (roundTrip demoChat))
     = demoChat\<lparr>uuidReads := 1, clockReads := 1, chatMessages := [demoSaved]\<rparr>"
    by (simp add: rt ins)
  note u = saveChatMessage_unfold [OF en nf(1), of "js ''alice''" "js ''s1''" User "js ''hi''" "js ''1''" None]
  show "fst (saveChatMessage demoChat (js ''alice'') (js ''s1'') User (js ''hi'') (js ''1'') None) = Some demoSaved"
    using nf(2) by (simp add: u rt ins)
  show "chatSessions (snd (saveChatMessage demoChat (js ''alice'') (js ''s1'') User (js ''hi'') (js ''1'') None)) =
     [(demoSession (js ''s1'') (js ''alice'') None)\<lparr>cs_lastMessageAt := 1001, cs_updatedAt := 1002\<rparr>]"
    using nf(2) by (simp add: u rt ins bumpChatSession_simps) (simp add: demoWorld_def demoSession_def)
  show "chatMessages (snd (saveChatMessage demoChat (js ''alice'') (js ''s1'') User (js ''hi'') (js ''1'') None)) = [demoSaved]"
    using nf(2) by (simp add: u rt ins bumpChatSession_simps)
qed

text \<open>
  The claim as stated fails on its second half: in the state after the insert and before
  the update, which another request can read, the new message (timestamp 1000) is there
  and the session's \<open>lastMessageAt\<close> is still 1.
\<close>

theorem saveChatMessage_not_atomic:
  "fst (saveChatMessage demoChat (js ''alice'') (js ''s1'') User (js ''hi'') (js ''1'') None) = Some demoSaved
   \<and> chatMessages (saveChatMessageStates demoChat (js ''alice'') (js ''s1'') User (js ''hi'') (js ''1'') None ! 1) = [demoSaved]
   \<and> map cs_lastMessageAt (chatSessions (saveChatMessageStates demoChat (js ''alice'') (js ''s1'') User (js ''hi'') (js ''1'') None ! 1)) = [1]
   \<and> cs_lastMessageAt (demoSession (js ''s1'') (js ''alice'') None) < cm_timestamp demoSaved"
proof -
  have nf: "\<not> nextFault demoChat" and en: "enabled demoChat"
    by (simp_all add: demoWorld_def nextFault_def)
  have "saveChatMessageStates demoChat (js ''alice'') (js ''s1'') User (js ''hi'') (js ''1'') None ! 1 =
          snd (insertChatMessage (js ''alice'') (js ''s1'') User (js ''hi'') (js ''1'') None (roundTrip demoChat))"
    using en by (simp add: saveChatMessageStates_def dbStatement_ok [OF nf])
  then have st: "saveChatMessageStates demoChat (js ''alice'') (js ''s1'') User (js ''hi'') (js ''1'') None ! 1 = demoChat\<lparr>uuidReads := 1, clockReads := 1, chatMessages := [demoSaved]\<rparr>"
    by (simp only: demo_save(2))
  show ?thesis
    unfolding st using demo_save(1) by (simp add: demoSession_def)
qed

theorem saveChatMessage_bumps_session_witness:
  "clock demoChat (clockReads demoChat) \<le> clock demoChat (Suc (clockReads demoChat))
   \<and> fst (saveChatMessage demoChat (js ''alice'') (js ''s1'') User (js ''hi'') (js ''1'') None) = Some demoSaved
   \<and> demoSaved \<in> set (chatMessages (snd (saveChatMessage demoChat (js ''alice'') (js ''s1'') User (js ''hi'') (js ''1'') None)))
   \<and> cm_timestamp demoSaved
       \<le> cs_lastMessageAt (hd (chatSessions (snd (saveChatMessage demoChat (js ''alice'') (js ''s1'') User (js ''hi'') (js ''1'') None))))
   \<and> map cs_lastMessageAt (chatSessions (snd (saveChatMessage demoChat (js ''alice'') (js ''s1'') User (js ''hi'') (js ''1'') None))) = [1001]"
proof -
  have mono: "clock demoChat (clockReads demoChat) \<le> clock demoChat (Suc (clockReads demoChat))"
    by (simp add: demoWorld_def)
  have save: "saveChatMessage demoChat (js ''alice'') (js ''s1'') User (js ''hi'') (js ''1'') None = (Some demoSaved, snd (saveChatMessage demoChat (js ''alice'') (js ''s1'') User (js ''hi'') (js ''1'') None))"
    using demo_save(1) by (metis prod.collapse)
  have "hd (chatSessions (snd (saveChatMessage demoChat (js ''alice'') (js ''s1'') User (js ''hi'') (js ''1'') None)))
          \<in> set (chatSessions (snd (saveChatMessage demoChat (js ''alice'') (js ''s1'') User (js ''hi'') (js ''1'') None)))"
    and "cs_id (hd (chatSessions (snd (saveChatMessage demoChat (js ''alice'') (js ''s1'') User (js ''hi'') (js ''1'') None)))) = js ''s1''"
    unfolding demo_save(3) by (simp_all add: demoSession_def)
  then show ?thesis
    using saveChatMessage_bumps_session [OF save mono] mono demo_save(1,3)
    by simp
qed

section \<open>Deriving the chat title\<close>

lemma substring_0: "substring s 0 n = take n s"
  by (simp add: substring_def Let_def min_def)

lemma getChatSession_frame: "chatSessions (snd (getChatSession w userId chatSessionId)) = chatSessions w"
  by (simp add: getChatSession_def dbStatement_def split_beta)

lemma getChatSession_Some:
  "fst (getChatSession w userId chatSessionId) = Some s \<Longrightarrow>
   s \<in> set (chatSessions w) \<and> cs_id s = chatSessionId \<and> cs_userId s = userId"
proof -
  assume a: "fst (getChatSession w userId chatSessionId) = Some s"
  let ?rows = "filter (\<lambda>s. cs_id s = chatSessionId \<and> cs_userId s = userId) (chatSessions w)"
  obtain rest where "?rows = s # rest"
    using a by (cases ?rows) (auto simp: getChatSession_def dbStatement_def split: if_splits)
  then have "s \<in> set ?rows"
    by (simp only: list.set_intros(1))
  then show ?thesis
    by (simp only: set_filter mem_Collect_eq)
qed

lemma saveChatMessage_titles:
  "map cs_title (chatSessions (snd (saveChatMessage w userId chatSessionId r text messageIndex meta)))
     = map cs_title (chatSessions w)"
proof -
  have m: "map cs_title (map (\<lambda>s. if cs_id s = chatSessionId
                                   then s\<lparr>cs_lastMessageAt := a, cs_updatedAt := b\<rparr> else s) xs)
           = map cs_title xs" for a b xs
    by (induction xs) auto
  show ?thesis
    by (simp add: saveChatMessage_def dbStatement_def split_beta insertChatMessage_simps
        bumpChatSession_simps m)
qed

lemma generateChatTitle_unfold:
  assumes "enabled w" and "\<not> nextFault w"
    and "find (\<lambda>m. cm_role m = User)
           (take 3 (sort_key cm_timestamp
                      (filter (\<lambda>m. cm_chatSessionId m = chatSessionId \<and> cm_userId m = userId)
                         (chatMessages w)))) = Some m"
  shows "fst (generateChatTitle w userId chatSessionId) =
           Some (if length (cm_content m) > 50
                 then take 50 (trim (cm_content m)) @ js ''...''
                 else take 50 (trim (cm_content m)))"
proof -
  let ?ms = "take 3 (sort_key cm_timestamp
                      (filter (\<lambda>m. cm_chatSessionId m = chatSessionId \<and> cm_userId m = userId)
                         (chatMessages w)))"
  have ne: "filter (\<lambda>m. cm_chatSessionId m = chatSessionId \<and> cm_userId m = userId)
              (chatMessages w) \<noteq> []"
    using assms(3) by auto
  show ?thesis
    using assms(1,2) ne
    by (simp add: generateChatTitle_def dbStatement_ok assms(3) substring_0 Let_def split_beta)
qed


lemma updateChatSessionTitle_sets:
  assumes "enabled w" and "\<not> nextFault w"
    and "s \<in> set (chatSessions (snd (updateChatSessionTitle w userId chatSessionId t)))"
    and "cs_id s = chatSessionId" and "cs_userId s = userId"
  shows "cs_title s = Some t"
proof -
  have "chatSessions (snd (updateChatSessionTitle w userId chatSessionId t)) =
          map (\<lambda>s. if cs_id s = chatSessionId \<and> cs_userId s = userId
                   then s\<lparr>cs_title := Some t, cs_updatedAt := clock w (clockReads w)\<rparr> else s)
            (chatSessions w)"
    using assms(1,2) by (simp add: updateChatSessionTitle_def dbStatement_ok split_beta)
  then obtain s0 where "s = (if cs_id s0 = chatSessionId \<and> cs_userId s0 = userId
                             then s0\<lparr>cs_title := Some t, cs_updatedAt := clock w (clockReads w)\<rparr>
                             else s0)"
    using assms(3) by (auto simp only: set_map image_iff)
  then show ?thesis
    using assms(4,5) by (cases "cs_id s0 = chatSessionId \<and> cs_userId s0 = userId") auto
qed

lemma generateChatTitle_persists:
  assumes "enabled w" and "\<not> nextFault w" and "\<not> nextFault (roundTrip w)"
    and "find (\<lambda>m. cm_role m = User)
           (take 3 (sort_key cm_timestamp
                      (filter (\<lambda>m. cm_chatSessionId m = chatSessionId \<and> cm_userId m = userId)
                         (chatMessages w)))) = Some m"
    and "fst (generateChatTitle w userId chatSessionId) = Some t"
    and "s \<in> set (chatSessions (snd (generateChatTitle w userId chatSessionId)))"
    and "cs_id s = chatSessionId" and "cs_userId s = userId"
  shows "cs_title s = Some t"
proof -
  have ne: "filter (\<lambda>m. cm_chatSessionId m = chatSessionId \<and> cm_userId m = userId)
              (chatMessages w) \<noteq> []"
    using assms(4) by auto
  let ?t = "if length (cm_content m) > 50 then take 50 (trim (cm_content m)) @ js ''...''
            else take 50 (trim (cm_content m))"
  have t: "t = ?t"
    using generateChatTitle_unfold [OF assms(1,2,4)] assms(5) by simp
  have "generateChatTitle w userId chatSessionId =
          (Some ?t, snd (updateChatSessionTitle (roundTrip w) userId chatSessionId ?t))"
    using assms(1,2) ne
    by (simp add: generateChatTitle_def dbStatement_ok assms(4) substring_0 Let_def split_beta)
  then have "generateChatTitle w userId chatSessionId =
          (Some t, snd (updateChatSessionTitle (roundTrip w) userId chatSessionId t))"
    by (simp only: t)
  then have "s \<in> set (chatSessions (snd (updateChatSessionTitle (roundTrip w) userId chatSessionId t)))"
    using assms(6) by simp
  then show ?thesis
    using updateChatSessionTitle_sets [of "roundTrip w" s userId chatSessionId t] assms(1,3,7,8)
    by simp
qed

lemma chatMessagesAction_titles:
  assumes "mq_role body \<noteq> Some User
           \<or> (\<forall>s \<in> set (chatSessions w).
                 cs_id s = chatSessionId \<and> cs_userId s = the (mq_userId body) \<longrightarrow>
                 truthy (cs_title s))"
  shows "map cs_title (chatSessions (snd (chatMessagesAction w (Some chatSessionId) body)))
           = map cs_title (chatSessions w)"
proof -
  let ?u = "the (mq_userId body)"
  let ?g = "getChatSession w ?u chatSessionId"
  let ?sv = "saveChatMessage (snd ?g) ?u chatSessionId (the (mq_role body)) (the (mq_content body))
               (the (mq_messageIndex body)) (mq_metadata body)"
  have sv: "map cs_title (chatSessions (snd ?sv)) = map cs_title (chatSessions w)"
    by (simp add: saveChatMessage_titles getChatSession_frame)
  have gate: "\<not> (mq_role body = Some User \<and> \<not> truthy (cs_title s))"
    if "fst ?g = Some s" for s
    using assms getChatSession_Some [OF that] by blast
  show ?thesis
  proof (cases "fst ?g")
    case None
    then show ?thesis
      by (simp add: chatMessagesAction_def split_beta getChatSession_frame)
  next
    case (Some s)
    show ?thesis
      using gate [OF Some] sv
      by (cases "fst ?sv") (auto simp: chatMessagesAction_def split_beta Some getChatSession_frame)
  qed
qed


text \<open>
  Claim C7, amended.  \<open>generateChatTitle\<close> looks at the three earliest messages of the
  session and takes the first of them sent by the user; the title it returns starts
  with the first 50 code units of that message's content with the surrounding white
  space removed, and for a content without surrounding white space it is the content
  itself when that has at most 50 code units and its first 50 code units followed by
  \<open>...\<close> otherwise; when the update does not throw, the title is stored in the session.
  The handler that posts a message calls it only after saving a message of role
  \<open>user\<close> to a session whose title was absent or empty: a post with another role, or
  to a session that has a non-empty title, leaves every session title as it was.
\<close>

theorem chat_title_derivation:
  "(enabled w \<and> \<not> nextFault w
    \<and> find (\<lambda>m. cm_role m = User)
          (take 3 (sort_key cm_timestamp
                     (filter (\<lambda>m. cm_chatSessionId m = chatSessionId \<and> cm_userId m = userId)
                        (chatMessages w)))) = Some m \<longrightarrow>
      (\<exists>t. fst (generateChatTitle w userId chatSessionId) = Some t
           \<and> prefix (take 50 (trim (cm_content m))) t
           \<and> (trim (cm_content m) = cm_content m \<longrightarrow>
                t = (if length (cm_content m) > 50 then take 50 (cm_content m) @ js ''...''
                     else cm_content m))
           \<and> (\<not> nextFault (roundTrip w) \<longrightarrow>
                (\<forall>s \<in> set (chatSessions (snd (generateChatTitle w userId chatSessionId))).
                    cs_id s = chatSessionId \<and> cs_userId s = userId \<longrightarrow> cs_title s = Some t))))
   \<and> (mq_role body \<noteq> Some User
        \<or> (\<forall>s \<in> set (chatSessions w).
              cs_id s = chatSessionId \<and> cs_userId s = the (mq_userId body) \<longrightarrow>
              truthy (cs_title s)) \<longrightarrow>
        map cs_title (chatSessions (snd (chatMessagesAction w (Some chatSessionId) body)))
          = map cs_title (chatSessions w))"
proof -
  have derive: "\<exists>t. fst (generateChatTitle w userId chatSessionId) = Some t
           \<and> prefix (take 50 (trim (cm_content m))) t
           \<and> (trim (cm_content m) = cm_content m \<longrightarrow>
                t = (if length (cm_content m) > 50 then take 50 (cm_content m) @ js ''...''
                     else cm_content m))
           \<and> (\<not> nextFault (roundTrip w) \<longrightarrow>
                (\<forall>s \<in> set (chatSessions (snd (generateChatTitle w userId chatSessionId))).
                    cs_id s = chatSessionId \<and> cs_userId s = userId \<longrightarrow> cs_title s = Some t))"
    if en: "enabled w" and nf: "\<not> nextFault w"
      and first: "find (\<lambda>m. cm_role m = User)
          (take 3 (sort_key cm_timestamp
                     (filter (\<lambda>m. cm_chatSessionId m = chatSessionId \<and> cm_userId m = userId)
                        (chatMessages w)))) = Some m"
  proof -
    let ?t = "if length (cm_content m) > 50 then take 50 (trim (cm_content m)) @ js ''...''
              else take 50 (trim (cm_content m))"
    have t: "fst (generateChatTitle w userId chatSessionId) = Some ?t"
      by (rule generateChatTitle_unfold [OF en nf first])
    have p: "prefix (take 50 (trim (cm_content m))) ?t"
      by simp
    have e: "?t = (if length (cm_content m) > 50 then take 50 (cm_content m) @ js ''...''
                   else cm_content m)"
      if "trim (cm_content m) = cm_content m"
      by (simp add: that)
    have s: "\<forall>s \<in> set (chatSessions (snd (generateChatTitle w userId chatSessionId))).
                cs_id s = chatSessionId \<and> cs_userId s = userId \<longrightarrow> cs_title s = Some ?t"
      if "\<not> nextFault (roundTrip w)"
      using generateChatTitle_persists [OF en nf that first t] by blast
    show ?thesis
      using t p e s by blast
  qed
  show ?thesis
    using derive chatMessagesAction_titles [of body w chatSessionId] by blast
qed


lemma demo_first_user_message:
  "find (\<lambda>m. cm_role m = User)
     (take 3 (sort_key cm_timestamp
                (filter (\<lambda>m. cm_chatSessionId m = js ''s1'' \<and> cm_userId m = js ''alice'')
                   (chatMessages (demoTitled (c))))))
     = Some (demoMessage (js ''s1'') (js ''alice'') User c 7)"
  by (simp add: demoWorld_def demoMessage_def)

lemma demo_title_world: "enabled (demoTitled (c))" "\<not> nextFault (demoTitled (c))" "\<not> nextFault (roundTrip (demoTitled (c)))"
  by (simp_all add: demoWorld_def nextFault_def)

text \<open>
  The claim as stated fails: for the first user message \<open>  hello\<close> the title is
  \<open>hello\<close>, which is not the first 50 characters of the content (the content itself,
  as it is shorter than 50).
\<close>

theorem chat_title_counterexample:
  "fst (generateChatTitle (demoTitled (js ''  hello'')) (js ''alice'') (js ''s1'')) = Some (js ''hello'')
   \<and> take 50 (js ''  hello'') = js ''  hello''
   \<and> js ''hello'' \<noteq> js ''  hello''"
proof -
  have "trim (js ''  hello'') = js ''hello''"
    by (simp add: trim_def js_def isWhiteSpace_def isLineTerminator_def)
  then have "fst (generateChatTitle (demoTitled (js ''  hello'')) (js ''alice'') (js ''s1'')) = Some (js ''hello'')"
    using generateChatTitle_unfold [OF demo_title_world(1,2) demo_first_user_message, of "js ''  hello''"]
    by (simp add: demoMessage_def) (simp add: js_def)
  then show ?thesis
    by (simp add: js_def)
qed

theorem chat_title_derivation_witness:
  "enabled (demoTitled (js ''hello'')) \<and> \<not> nextFault (demoTitled (js ''hello''))
   \<and> trim (js ''hello'') = js ''hello''
   \<and> fst (generateChatTitle (demoTitled (js ''hello'')) (js ''alice'') (js ''s1'')) = Some (js ''hello'')
   \<and> mq_role demoPost = Some User
   \<and> truthy (cs_title (demoSession (js ''s1'') (js ''alice'') (Some (js ''Kept''))))
   \<and> map cs_title (chatSessions (snd (chatMessagesAction demoKept (Some (js ''s1'')) demoPost)))
       = [Some (js ''Kept'')]"
proof -
  have tr: "trim (js ''hello'') = js ''hello''"
    by (simp add: trim_def js_def isWhiteSpace_def isLineTerminator_def)
  have c: "cm_content (demoMessage (js ''s1'') (js ''alice'') User (js ''hello'') 7) = js ''hello''"
    by (simp add: demoMessage_def)
  have len: "\<not> length (js ''hello'') > 50"
    by (simp add: js_def)
  have first: "fst (generateChatTitle (demoTitled (js ''hello'')) (js ''alice'') (js ''s1'')) = Some (js ''hello'')"
    using chat_title_derivation
      [of "(demoTitled (js ''hello''))" "js ''s1''" "js ''alice''"
          "demoMessage (js ''s1'') (js ''alice'') User (js ''hello'') 7" "demoPost"]
      demo_title_world(1,2) [of "js ''hello''"] demo_first_user_message [of "js ''hello''"] tr len
    unfolding c by auto
  have kept: "\<forall>s \<in> set (chatSessions demoKept).
                 cs_id s = js ''s1'' \<and> cs_userId s = the (mq_userId demoPost) \<longrightarrow> truthy (cs_title s)"
    and tk: "truthy (cs_title (demoSession (js ''s1'') (js ''alice'') (Some (js ''Kept''))))"
    by (simp_all add: demoSession_def truthy_def js_def)
  have "map cs_title (chatSessions (snd (chatMessagesAction demoKept (Some (js ''s1'')) demoPost)))
          = map cs_title (chatSessions demoKept)"
    using chat_title_derivation
      [of "demoKept" "js ''s1''" "js ''alice''"
          "demoMessage (js ''s1'') (js ''alice'') User (js ''hello'') 7" "demoPost"] kept
    by blast
  then have second: "map cs_title (chatSessions (snd (chatMessagesAction demoKept (Some (js ''s1'')) demoPost)))
       = [Some (js ''Kept'')]"
    by (simp add: demoSession_def)
  show ?thesis
    using first second tr tk demo_title_world(1,2) [of "js ''hello''"] by simp
qed

text \<open>
  The test for the ellipsis reads the length of the content before trimming: a short
  message followed by blanks gets an ellipsis although nothing of it was cut.
\<close>

lemma chat_title_trailing_blanks:
  "fst (generateChatTitle (demoTitled (js ''hi'' @ replicate 60 32)) (js ''alice'') (js ''s1'')) = Some (js ''hi...'')"
proof -
  have "dropWhile isWhiteSpace (rev (js ''hi'' @ replicate 60 32)) = rev (js ''hi'')"
    by (simp add: js_def isWhiteSpace_def isLineTerminator_def dropWhile_append3)
  then have "trim (js ''hi'' @ replicate 60 32) = js ''hi''"
    by (simp add: trim_def) (simp add: js_def isWhiteSpace_def isLineTerminator_def)
  then show ?thesis
    using generateChatTitle_unfold
      [OF demo_title_world(1,2) demo_first_user_message, of "js ''hi'' @ replicate 60 32"]
    by (simp add: demoMessage_def) (simp add: js_def)
qed

section \<open>Sections and subsections of a plan\<close>

lemma cut_at_next:
  assumes "length a = start"
    and "\<forall>j<length sec. \<not> prefix pat (drop j (sec @ pat @ rest))"
  shows "indexOf (substringFrom (a @ sec @ pat @ rest) start) pat = Some (length sec)"
    and "substring (a @ sec @ pat @ rest) start (start + length sec) = sec"
proof -
  have d: "substringFrom (a @ sec @ pat @ rest) start = sec @ pat @ rest"
    using assms(1) by (simp add: substringFrom_drop)
  show "indexOf (substringFrom (a @ sec @ pat @ rest) start) pat = Some (length sec)"
    unfolding d indexOf_Some_iff using assms(2) by simp
  show "substring (a @ sec @ pat @ rest) start (start + length sec) = sec"
    using assms(1) by (simp add: substring_take_drop)
qed

lemma cut_at_end:
  assumes "length a = start" and "\<not> sublist pat body"
  shows "indexOf (substringFrom (a @ body) start) pat = None"
    and "substring (a @ body) start (length (a @ body)) = body"
proof -
  have d: "substringFrom (a @ body) start = body"
    using assms(1) by (simp add: substringFrom_drop)
  show "indexOf (substringFrom (a @ body) start) pat = None"
    unfolding d using assms(2) by (simp add: indexOf_None_iff)
  show "substring (a @ body) start (length (a @ body)) = body"
    using assms(1) by (simp add: substring_take_drop)
qed

lemma indexOf_first:
  assumes "\<forall>j<length pre. \<not> prefix h (drop j (pre @ h @ body))"
  shows "indexOf (pre @ h @ body) h = Some (length pre)"
  unfolding indexOf_Some_iff using assms by simp

lemma extractSection_next:
  assumes "\<forall>j<length pre. \<not> prefix header (drop j (pre @ header @ sec @ (10 # js ''## '') @ rest))"
    and "\<forall>j<length sec. \<not> prefix (10 # js ''## '') (drop j (sec @ (10 # js ''## '') @ rest))"
  shows "extractSection (pre @ header @ sec @ (10 # js ''## '') @ rest) header = trim sec"
proof -
  let ?c = "pre @ header @ sec @ (10 # js ''## '') @ rest"
  have i: "indexOf ?c header = Some (length pre)"
    using indexOf_first [OF assms(1)] .
  have c: "?c = (pre @ header) @ sec @ (10 # js ''## '') @ rest"
    by simp
  have n: "indexOf (substringFrom ?c (length pre + length header)) (10 # js ''## '') = Some (length sec)"
    and s: "substring ?c (length pre + length header) (length pre + length header + length sec) = sec"
    unfolding c
    using cut_at_next [of "pre @ header" "length pre + length header" sec "10 # js ''## ''" rest]
      assms(2) by simp_all
  show ?thesis
    by (simp only: extractSection_def i n s matchNextSection_def option.case Let_def)
qed

lemma extractSection_end:
  assumes "\<forall>j<length pre. \<not> prefix header (drop j (pre @ header @ body))"
    and "\<not> sublist (10 # js ''## '') body"
  shows "extractSection (pre @ header @ body) header = trim body"
proof -
  let ?c = "pre @ header @ body"
  have i: "indexOf ?c header = Some (length pre)"
    using indexOf_first [OF assms(1)] .
  have c: "?c = (pre @ header) @ body"
    by simp
  have n: "indexOf (substringFrom ?c (length pre + length header)) (10 # js ''## '') = None"
    and s: "substring ?c (length pre + length header) (length ?c) = body"
    unfolding c
    using cut_at_end [of "pre @ header" "length pre + length header" "10 # js ''## ''" body]
      assms(2) by simp_all
  show ?thesis
    by (simp only: extractSection_def i n s matchNextSection_def option.case Let_def)
qed


lemma no_heading_in_tail:
  assumes "10 \<notin> set t"
    and "\<forall>j<length sec. \<not> prefix (10 # p) (drop j (sec @ (10 # p) @ rest))"
  shows "\<forall>j<length (t @ sec). \<not> prefix (10 # p) (drop j ((t @ sec) @ (10 # p) @ rest))"
proof (intro allI impI)
  fix j
  assume j: "j < length (t @ sec)"
  show "\<not> prefix (10 # p) (drop j ((t @ sec) @ (10 # p) @ rest))"
  proof (cases "j < length t")
    case True
    then have "drop j ((t @ sec) @ (10 # p) @ rest) = (t ! j) # drop (Suc j) t @ sec @ (10 # p) @ rest"
      by (simp add: Cons_nth_drop_Suc)
    moreover have "t ! j \<noteq> 10"
      using True assms(1) nth_mem by metis
    ultimately show ?thesis
      by simp
  next
    case False
    then have "drop j ((t @ sec) @ (10 # p) @ rest) = drop (j - length t) (sec @ (10 # p) @ rest)"
      by simp
    moreover have "j - length t < length sec"
      using j False by simp
    ultimately show ?thesis
      using assms(2) by simp
  qed
qed

lemma no_heading_sublist:
  "10 \<notin> set t \<Longrightarrow> \<not> sublist (10 # p) body \<Longrightarrow> \<not> sublist (10 # p) (t @ body)"
  by (induction t) (auto simp: sublist_Cons_right)

lemma heading_tail:
  assumes "10 \<notin> set sub"
  shows "10 \<notin> set (drop (length sub) (js ''### '' @ sub))"
proof -
  have "10 \<notin> set (js ''### '' @ sub)"
    using assms by (simp add: js_def)
  then show ?thesis
    using in_set_dropD by fast
qed

lemma heading_split:
  "pre @ h @ y @ z = (pre @ take n h) @ (drop n h @ y) @ z"
  "pre @ h @ y = (pre @ take n h) @ (drop n h @ y)"
  by (metis append_assoc append_take_drop_id)+

lemma heading_split_length:
  "length (pre @ take (length sub) (js ''### '' @ sub)) = length pre + length sub"
  by simp

lemma extractSubsectionText_next:
  assumes nl: "10 \<notin> set sub"
    and first: "\<forall>j<length pre. \<not> prefix (js ''### '' @ sub)
                   (drop j (pre @ (js ''### '' @ sub) @ sec @ (10 # js ''### '') @ rest))"
    and nxt: "\<forall>j<length sec. \<not> prefix (10 # js ''### '') (drop j (sec @ (10 # js ''### '') @ rest))"
  shows "\<exists>t. suffix t (js ''### '' @ sub)
             \<and> extractSubsectionText (pre @ (js ''### '' @ sub) @ sec @ (10 # js ''### '') @ rest) sub
                 = (if trim (t @ sec) = [] then None else Some (trim (t @ sec)))"
proof -
  let ?h = "js ''### '' @ sub"
  let ?t = "drop (length sub) ?h"
  let ?a = "pre @ take (length sub) ?h"
  let ?c = "pre @ ?h @ sec @ (10 # js ''### '') @ rest"
  have i: "indexOf ?c ?h = Some (length pre)"
    using indexOf_first [OF first] .
  have c: "?c = ?a @ (?t @ sec) @ (10 # js ''### '') @ rest"
    by (rule heading_split(1))
  have la: "length ?a = length pre + length sub"
    by (rule heading_split_length)
  have free: "\<forall>j<length (?t @ sec). \<not> prefix (10 # js ''### '')
                 (drop j ((?t @ sec) @ (10 # js ''### '') @ rest))"
    by (rule no_heading_in_tail [OF heading_tail [OF nl] nxt])
  have n: "indexOf (substringFrom ?c (length pre + length sub)) (10 # js ''### '')
             = Some (length (?t @ sec))"
    and s: "substring ?c (length pre + length sub) (length pre + length sub + length (?t @ sec))
             = ?t @ sec"
    unfolding c using cut_at_next [OF la free] by simp_all
  have "extractSubsectionText ?c sub
          = (if trim (?t @ sec) = [] then None else Some (trim (?t @ sec)))"
    by (simp only: extractSubsectionText_def i n s matchNextSubsection_def option.case Let_def)
  moreover have "suffix ?t ?h"
    by (rule suffix_drop)
  ultimately show ?thesis
    by blast
qed

lemma extractSubsectionText_end:
  assumes nl: "10 \<notin> set sub"
    and first: "\<forall>j<length pre. \<not> prefix (js ''### '' @ sub) (drop j (pre @ (js ''### '' @ sub) @ body))"
    and nxt: "\<not> sublist (10 # js ''### '') body"
  shows "\<exists>t. suffix t (js ''### '' @ sub)
             \<and> extractSubsectionText (pre @ (js ''### '' @ sub) @ body) sub
                 = (if trim (t @ body) = [] then None else Some (trim (t @ body)))"
proof -
  let ?h = "js ''### '' @ sub"
  let ?t = "drop (length sub) ?h"
  let ?a = "pre @ take (length sub) ?h"
  let ?c = "pre @ ?h @ body"
  have i: "indexOf ?c ?h = Some (length pre)"
    using indexOf_first [OF first] .
  have c: "?c = ?a @ (?t @ body)"
    by (rule heading_split(2))
  have la: "length ?a = length pre + length sub"
    by (rule heading_split_length)
  have free: "\<not> sublist (10 # js ''### '') (?t @ body)"
    by (rule no_heading_sublist [OF heading_tail [OF nl] nxt])
  have n: "indexOf (substringFrom ?c (length pre + length sub)) (10 # js ''### '') = None"
    and s: "substring ?c (length pre + length sub) (length ?c) = ?t @ body"
    unfolding c using cut_at_end [OF la free] by simp_all
  have "extractSubsectionText ?c sub
          = (if trim (?t @ body) = [] then None else Some (trim (?t @ body)))"
    by (simp only: extractSubsectionText_def i n s matchNextSubsection_def option.case Let_def)
  moreover have "suffix ?t ?h"
    by (rule suffix_drop)
  ultimately show ?thesis
    by blast
qed


text \<open>
  The subsections of a plan are looked up in the content of their section, so a
  subsection never reaches past the end of the section it belongs to.
\<close>

lemma subsections_within_section:
  assumes "parseStructuredPlan text = Some p"
  shows "frontend (architecture p) =
           extractSubsectionText
             (extractSection (rawContent p) (js ''## Architecture & Tech Stack'')) (js ''Frontend'')"
    and "phase1 (roadmap p) =
           extractSubsectionText
             (extractSection (rawContent p) (js ''## Implementation Roadmap'')) (js ''Phase 1'')"
    and "functional (requirements p) =
           extractSubsectionItems
             (extractSection (rawContent p) (js ''## Requirements''))
             (js ''Functional Requirements'')"
  using assms
  by (auto simp: parseStructuredPlan_def Let_def parseArchitectureSection_def
      parseRoadmapSection_def parseRequirementsSection_def split: if_splits)

text \<open>
  Claim C9, amended.  For the first occurrence of the header in the text,
  \<open>extractSection\<close> returns, with the surrounding white space removed, the text from
  just after the header to the first following \<open>\\n## \<close>, or to the end of the text when
  none follows; blank lines inside are kept.  For a subsection name without a newline,
  \<open>extractSubsectionText\<close> applied to the section's content cuts at the first \<open>\\n### \<close>
  that follows the subsection heading, or at the end of that content; what it returns is
  the text up to the cut, preceded by a (possibly empty) final part of the heading, with
  the surrounding white space removed, and \<open>undefined\<close> when that is empty.
\<close>

theorem section_extraction:
  "((\<forall>j<length pre. \<not> prefix header (drop j (pre @ header @ sec @ (10 # js ''## '') @ rest)))
     \<and> (\<forall>j<length sec. \<not> prefix (10 # js ''## '') (drop j (sec @ (10 # js ''## '') @ rest))) \<longrightarrow>
       extractSection (pre @ header @ sec @ (10 # js ''## '') @ rest) header = trim sec)
   \<and> ((\<forall>j<length pre. \<not> prefix header (drop j (pre @ header @ body)))
        \<and> \<not> sublist (10 # js ''## '') body \<longrightarrow>
       extractSection (pre @ header @ body) header = trim body)
   \<and> (10 \<notin> set sub
        \<and> (\<forall>j<length pre. \<not> prefix (js ''### '' @ sub)
                (drop j (pre @ (js ''### '' @ sub) @ sec @ (10 # js ''### '') @ rest)))
        \<and> (\<forall>j<length sec. \<not> prefix (10 # js ''### '') (drop j (sec @ (10 # js ''### '') @ rest))) \<longrightarrow>
       (\<exists>t. suffix t (js ''### '' @ sub)
            \<and> extractSubsectionText (pre @ (js ''### '' @ sub) @ sec @ (10 # js ''### '') @ rest) sub
                = (if trim (t @ sec) = [] then None else Some (trim (t @ sec)))))
   \<and> (10 \<notin> set sub
        \<and> (\<forall>j<length pre. \<not> prefix (js ''### '' @ sub) (drop j (pre @ (js ''### '' @ sub) @ body)))
        \<and> \<not> sublist (10 # js ''### '') body \<longrightarrow>
       (\<exists>t. suffix t (js ''### '' @ sub)
            \<and> extractSubsectionText (pre @ (js ''### '' @ sub) @ body) sub
                = (if trim (t @ body) = [] then None else Some (trim (t @ body)))))"
  using extractSection_next [of pre header sec rest] extractSection_end [of pre header body]
    extractSubsectionText_next [of sub pre sec rest] extractSubsectionText_end [of sub pre body]
  by blast

text \<open>
  The claim as stated fails: the text between the heading \<open>## Requirements\<close> and the
  next heading is \<open>foo\<close> with the line breaks around it, and the section extracted is
  \<open>foo\<close>.
\<close>

theorem section_extraction_counterexample:
  "extractSection (js ''## Requirements'' @ [10] @ js ''foo'' @ [10] @ js ''## Next'')
     (js ''## Requirements'') = js ''foo''
   \<and> js ''foo'' \<noteq> [10] @ js ''foo''
   \<and> js ''foo'' \<noteq> [10] @ js ''foo'' @ [10]"
  by (simp add: js_def extractSection_def matchNextSection_def substringFrom_def substring_def
      trim_def isWhiteSpace_def isLineTerminator_def)

theorem section_extraction_witness:
  "indexOf (js ''# Plan'' @ [10] @ js ''## Requirements'' @ ([10, 10] @ js ''foo'' @ [10, 10] @ js ''bar'')
            @ (10 # js ''## '') @ js ''Next'') (js ''## Requirements'') = Some (length (js ''# Plan'' @ [10]))
   \<and> indexOf (([10, 10] @ js ''foo'' @ [10, 10] @ js ''bar'') @ (10 # js ''## '') @ js ''Next'')
         (10 # js ''## '') = Some (length ([10, 10] @ js ''foo'' @ [10, 10] @ js ''bar''))
   \<and> extractSection
         ((js ''# Plan'' @ [10]) @ js ''## Requirements'' @ ([10, 10] @ js ''foo'' @ [10, 10] @ js ''bar'')
            @ (10 # js ''## '') @ js ''Next'') (js ''## Requirements'')
       = js ''foo'' @ [10, 10] @ js ''bar''"
proof -
  let ?pre = "js ''# Plan'' @ [10]"
  let ?sec = "[10, 10] @ js ''foo'' @ [10, 10] @ js ''bar''"
  have a: "indexOf (?pre @ js ''## Requirements'' @ ?sec @ (10 # js ''## '') @ js ''Next'')
             (js ''## Requirements'') = Some (length ?pre)"
    by (simp add: js_def)
  have b: "indexOf (?sec @ (10 # js ''## '') @ js ''Next'') (10 # js ''## '') = Some (length ?sec)"
    by (simp add: js_def)
  have h1: "\<forall>j<length ?pre. \<not> prefix (js ''## Requirements'')
               (drop j (?pre @ js ''## Requirements'' @ ?sec @ (10 # js ''## '') @ js ''Next''))"
    using a unfolding indexOf_Some_iff by blast
  have h2: "\<forall>j<length ?sec. \<not> prefix (10 # js ''## '') (drop j (?sec @ (10 # js ''## '') @ js ''Next''))"
    using b unfolding indexOf_Some_iff by blast
  have t: "trim ?sec = js ''foo'' @ [10, 10] @ js ''bar''"
    by (simp add: trim_def js_def isWhiteSpace_def isLineTerminator_def)
  have "extractSection (?pre @ js ''## Requirements'' @ ?sec @ (10 # js ''## '') @ js ''Next'')
          (js ''## Requirements'') = trim ?sec"
    using section_extraction [of ?pre "js ''## Requirements''" ?sec "js ''Next''"] h1 h2
    by blast
  then show ?thesis
    using a b t by simp
qed

text \<open>
  Where the text of a subsection begins: the cut is made \<open>subsection.length\<close> code
  units after the start of \<open>### {subsection}\<close>, four code units before the heading
  ends, so the text of \<open>### Frontend\<close> starts with \<open>tend\<close>.
\<close>

lemma extractSubsectionText_heading_tail:
  "extractSubsectionText (js ''### Frontend'' @ [10] @ js ''React'' @ [10] @ js ''### Backend'')
     (js ''Frontend'') = Some (js ''tend'' @ [10] @ js ''React'')"
  by (simp add: js_def extractSubsectionText_def matchNextSubsection_def substringFrom_def
      substring_def trim_def isWhiteSpace_def isLineTerminator_def)

end
